theory Spec2Isabelle
  imports Main "HOL-Library.Word"
begin

unbundle bit_operations_syntax

section \<open>The u-blox SARA network co-processor client\<close>

text \<open>
  A shallow embedding of \<^verbatim>\<open>SaraNcpClient\<close> (sara_ncp_client.cpp): the lifecycle state
  machine (\<^verbatim>\<open>on\<close>, \<^verbatim>\<open>off\<close>, \<^verbatim>\<open>enable\<close>, \<^verbatim>\<open>disable\<close>), the registration
  tracker and its watchdog, the power sequencer, the data-channel flow control and the
  operator query.  The object's members are the fields of one record; the collaborators
  the client only drives (timer, GPIO pins, AT parser, GSM 07.10 muxer, event handler) are
  the \<open>env_\<close> fields of the same record: what they answer is read from the environment,
  what the client asks of them is appended to \<open>env_trace\<close>.
\<close>

subsection \<open>Data model\<close>

datatype NcpState = OFF | ON | DISABLED

datatype NcpConnectionState = DISCONNECTED | CONNECTING | CONNECTED

datatype RegistrationState = NotRegistered | Registered

text \<open>
  \<^verbatim>\<open>CellularAccessTechnology\<close>: the enumerators the source names.  An integer that is the
  value of none of them (\<^verbatim>\<open>static_cast\<close> accepts any) is \<open>ACT_UNNAMED\<close>.
\<close>

datatype CellularAccessTechnology =
    NONE | GSM | GSM_COMPACT | UTRAN | GSM_EDGE | UTRAN_HSDPA | UTRAN_HSUPA
  | UTRAN_HSDPA_HSUPA | LTE | LTE_CAT_M1 | LTE_NB_IOT | ACT_UNNAMED int

text \<open>
  \<^verbatim>\<open>conf_.ncpIdentifier()\<close> is only ever compared with \<^verbatim>\<open>PLATFORM_NCP_SARA_R410\<close>;
  the source calls the other branch "U201".
\<close>

datatype PlatformNcp = PLATFORM_NCP_SARA_U201 | PLATFORM_NCP_SARA_R410

datatype system_error =
    SYSTEM_ERROR_INVALID_STATE
  | SYSTEM_ERROR_AT_NOT_OK
  | SYSTEM_ERROR_AT_RESPONSE_UNEXPECTED
  | SYSTEM_ERROR_BAD_DATA
  | PARSER_ERROR int
  | MUXER_ERROR int

text \<open>An \<^verbatim>\<open>int\<close> return value: \<open>Inr ()\<close> is 0, \<open>Inl e\<close> the error code.\<close>

type_synonym ret = "system_error + unit"

text \<open>
  What \<^verbatim>\<open>parser_.execCommand\<close> and \<^verbatim>\<open>readResult\<close> return: a negative error code,
  \<^verbatim>\<open>AtResponse::OK\<close>, or another final result code.
\<close>

datatype exec_result = EXEC_FAILED int | AT_OK | AT_NOT_OK

text \<open>
  What \<^verbatim>\<open>muxer_.writeChannel\<close> returns: 0, \<^verbatim>\<open>GSM0710_ERROR_FLOW_CONTROL\<close>, or another
  error code.
\<close>

datatype write_result = WRITE_OK | GSM0710_ERROR_FLOW_CONTROL | WRITE_ERROR int

datatype pin = UBPWR | UBRST | BUFEN | UBVINT

datatype reset_reason = RESET_REASON_POWER_DOWN | RESET_REASON_POWER_BROWNOUT | RESET_REASON_OTHER

datatype ncp_event =
    NCP_STATE_CHANGED NcpState
  | CONNECTION_STATE_CHANGED NcpConnectionState
  | AUTH string string

datatype effect =
    GPIO_Write pin int
  | Delay_Milliseconds nat
  | Delay_Microseconds nat
  | Muxer_stop
  | Muxer_openChannel nat
  | Muxer_writeChannel nat "8 word list"
  | Handler ncp_event

text \<open>
  One line handed to a registration handler: the handler's prefix, what
  \<^verbatim>\<open>reader->readLine\<close> returned, and the outcome of the two \<^verbatim>\<open>sscanf\<close> passes over the
  copy of the line (the notification layout first, the direct-response layout second).
  An outcome is the number of fields assigned and \<^verbatim>\<open>val[0..3]\<close>; \<^verbatim>\<open>val[3]\<close> is held
  as the access technology it is cast to.
\<close>

datatype urc_prefix = CREG | CGREG | CEREG

record scan =
  assigned :: int
  val0 :: "32 word"
  val1 :: "32 word"
  val2 :: "32 word"
  val3 :: CellularAccessTechnology

record urc =
  prefix :: urc_prefix
  readLine_r :: int
  scan_urc :: scan
  scan_direct :: scan

text \<open>
  One exchange with the AT parser: the lines it dispatches to the handlers while it runs,
  its result, and how long it took (milliseconds).
\<close>

record reply =
  urcs :: "urc list"
  result :: exec_result
  took :: nat

text \<open>
  \<^verbatim>\<open>CellularGlobalIdentity\<close>.  The declaration is not part of the sources at hand: the
  location-area code, the cell id and the flags are unsigned integers of some width
  (\<open>'l word\<close>, \<open>'c word\<close>, \<open>'f word\<close> below), the country and network codes are what the
  source casts them to, \<^verbatim>\<open>uint16_t\<close>.
\<close>

record ('l, 'c, 'f) CellularGlobalIdentity =
  mobile_country_code :: "16 word"
  mobile_network_code :: "16 word"
  location_area_code :: 'l
  cell_id :: 'c
  cgi_flags :: 'f

record ('l, 'c, 'f) SaraNcpClient =
  conf_ncpIdentifier :: PlatformNcp
  conf_eventHandler :: bool
  netConf_user :: string
  netConf_password :: string
  ncpState_m :: NcpState
  prevNcpState_m :: NcpState
  connState_m :: NcpConnectionState
  creg_m :: RegistrationState
  cgreg_m :: RegistrationState
  cereg_m :: RegistrationState
  regStartTime_m :: "32 word"
  regCheckTime_m :: "32 word"
  powerOnTime_m :: "32 word"
  registeredTime_m :: "32 word"
  registrationTimeout_m :: "32 word"
  memoryIssuePresent_m :: bool
  parserError_m :: int
  ready_m :: bool
  cgi_m :: "('l, 'c, 'f) CellularGlobalIdentity"
  act_m :: CellularAccessTechnology
  fwVersion_m :: int
  lastWindow_m :: "32 word"
  bytesInWindow_m :: "32 word"
  serial_enabled :: bool
  muxerAtStream_enabled :: bool
  env_clock :: nat
  env_vint :: "nat \<Rightarrow> bool"
  env_vint_reads :: nat
  env_parser :: "nat \<Rightarrow> reply"
  env_parser_calls :: nat
  env_openChannel :: "nat \<Rightarrow> int"
  env_open_calls :: nat
  env_writeChannel :: "nat \<Rightarrow> write_result"
  env_write_calls :: nat
  env_reset_info :: "int \<times> reset_reason"
  env_once_flag :: bool
  env_trace :: "effect list"

type_synonym ('l, 'c, 'f) client = "('l word, 'c word, 'f word) SaraNcpClient"

subsection \<open>Constants of the source\<close>


definition REGISTRATION_TIMEOUT :: "32 word" where
  "REGISTRATION_TIMEOUT = 10 * 60 * 1000"

definition UBLOX_NCP_R4_BYTES_PER_WINDOW_THRESHOLD :: "32 word" where
  "UBLOX_NCP_R4_BYTES_PER_WINDOW_THRESHOLD = 512"

definition UBLOX_NCP_R4_WINDOW_SIZE_MS :: "32 word" where
  "UBLOX_NCP_R4_WINDOW_SIZE_MS = 50"

definition UBLOX_NCP_R4_APP_FW_VERSION_NO_HW_FLOW_CONTROL_MAX :: int where
  "UBLOX_NCP_R4_APP_FW_VERSION_NO_HW_FLOW_CONTROL_MAX = 203"

definition UBLOX_NCP_PPP_CHANNEL :: nat where
  "UBLOX_NCP_PPP_CHANNEL = 2"

subsection \<open>The collaborators\<close>

text \<open>
  \<^verbatim>\<open>HAL_Timer_Get_Milli_Seconds\<close>: a 32-bit tick counter that wraps.  Time passes in
  the HAL delays and in the exchanges with the parser, by the amounts they state.
\<close>

definition millis :: "('l, 'c, 'f) SaraNcpClient \<Rightarrow> 32 word" where
  "millis s = of_nat (env_clock s)"

definition emit :: "effect \<Rightarrow> ('l, 'c, 'f) SaraNcpClient \<Rightarrow> ('l, 'c, 'f) SaraNcpClient" where
  "emit e s = s\<lparr>env_trace := env_trace s @ [e]\<rparr>"

definition HAL_Delay_Milliseconds ::
  "nat \<Rightarrow> ('l, 'c, 'f) SaraNcpClient \<Rightarrow> ('l, 'c, 'f) SaraNcpClient" where
  "HAL_Delay_Milliseconds n s = emit (Delay_Milliseconds n) (s\<lparr>env_clock := env_clock s + n\<rparr>)"

definition HAL_Delay_Microseconds ::
  "nat \<Rightarrow> ('l, 'c, 'f) SaraNcpClient \<Rightarrow> ('l, 'c, 'f) SaraNcpClient" where
  "HAL_Delay_Microseconds n s = emit (Delay_Microseconds n) s"

definition HAL_GPIO_Write ::
  "pin \<Rightarrow> int \<Rightarrow> ('l, 'c, 'f) SaraNcpClient \<Rightarrow> ('l, 'c, 'f) SaraNcpClient" where
  "HAL_GPIO_Write p v s = emit (GPIO_Write p v) s"

text \<open>\<^verbatim>\<open>modemPowerState\<close>: one read of the power-good input \<^verbatim>\<open>UBVINT\<close>.\<close>

definition modemPowerState ::
  "('l, 'c, 'f) SaraNcpClient \<Rightarrow> bool \<times> ('l, 'c, 'f) SaraNcpClient" where
  "modemPowerState s = (env_vint s (env_vint_reads s), s\<lparr>env_vint_reads := Suc (env_vint_reads s)\<rparr>)"

definition modemSetUartState ::
  "bool \<Rightarrow> ('l, 'c, 'f) SaraNcpClient \<Rightarrow> ('l, 'c, 'f) SaraNcpClient" where
  "modemSetUartState state s = HAL_GPIO_Write BUFEN (if state then 0 else 1) s"

definition muxer_stop :: "('l, 'c, 'f) SaraNcpClient \<Rightarrow> ('l, 'c, 'f) SaraNcpClient" where
  "muxer_stop s = emit Muxer_stop s"

definition muxer_openChannel ::
  "nat \<Rightarrow> ('l, 'c, 'f) SaraNcpClient \<Rightarrow> int \<times> ('l, 'c, 'f) SaraNcpClient" where
  "muxer_openChannel ch s =
     (env_openChannel s (env_open_calls s),
      emit (Muxer_openChannel ch) (s\<lparr>env_open_calls := Suc (env_open_calls s)\<rparr>))"

definition muxer_writeChannel ::
  "nat \<Rightarrow> 8 word list \<Rightarrow> ('l, 'c, 'f) SaraNcpClient
     \<Rightarrow> write_result \<times> ('l, 'c, 'f) SaraNcpClient" where
  "muxer_writeChannel ch d s =
     (env_writeChannel s (env_write_calls s),
      emit (Muxer_writeChannel ch d) (s\<lparr>env_write_calls := Suc (env_write_calls s)\<rparr>))"

text \<open>The event handler of the configuration, when there is one.\<close>

definition handler :: "ncp_event \<Rightarrow> ('l, 'c, 'f) SaraNcpClient \<Rightarrow> ('l, 'c, 'f) SaraNcpClient" where
  "handler ev s = emit (Handler ev) s"

text \<open>
  Modelled from the spec: \<^verbatim>\<open>parserError\<close> is defined in the client's header, which is
  not part of the sources at hand; a parser-level failure "first notifies the session of
  a parser error before propagating", and the source tests and clears \<^verbatim>\<open>parserError_\<close>.
\<close>

definition parserError :: "int \<Rightarrow> ('l, 'c, 'f) SaraNcpClient \<Rightarrow> ('l, 'c, 'f) SaraNcpClient" where
  "parserError r s = s\<lparr>parserError_m := r\<rparr>"

subsection \<open>Connection and NCP state\<close>

definition connectionState ::
  "NcpConnectionState \<Rightarrow> ('l, 'c, 'f) SaraNcpClient \<Rightarrow> ('l, 'c, 'f) SaraNcpClient" where
  "connectionState state s =
     (if ncpState_m s = DISABLED then s
      else if connState_m s = state then s
      else
        let s1 = s\<lparr>connState_m := state\<rparr>;
            s2 = (if connState_m s1 = CONNECTED then
                    (let (r, s') = muxer_openChannel UBLOX_NCP_PPP_CHANNEL s1 in
                     if r \<noteq> 0 then s'\<lparr>ready_m := False, connState_m := DISCONNECTED\<rparr> else s')
                  else s1)
        in if conf_eventHandler s2 then
             (let s3 = (if state = CONNECTED
                        then handler (AUTH (netConf_user s2) (netConf_password s2)) s2 else s2)
              in handler (CONNECTION_STATE_CHANGED (connState_m s3)) s3)
           else s2)"

definition ncpState :: "NcpState \<Rightarrow> ('l, 'c, 'f) SaraNcpClient \<Rightarrow> ('l, 'c, 'f) SaraNcpClient" where
  "ncpState state s =
     (if ncpState_m s = DISABLED then s
      else
        let s1 = (if state = OFF then connectionState DISCONNECTED (s\<lparr>ready_m := False\<rparr>) else s)
        in if ncpState_m s1 = state then s1
           else
             let s2 = s1\<lparr>ncpState_m := state\<rparr>
             in if conf_eventHandler s2 then handler (NCP_STATE_CHANGED (ncpState_m s2)) s2 else s2)"

subsection \<open>Registration tracking\<close>

definition resetRegistrationState :: "('l, 'c, 'f) SaraNcpClient \<Rightarrow> ('l, 'c, 'f) SaraNcpClient" where
  "resetRegistrationState s =
     s\<lparr>creg_m := NotRegistered, cgreg_m := NotRegistered, cereg_m := NotRegistered,
       regStartTime_m := millis s, regCheckTime_m := millis s\<rparr>"

definition checkRegistrationState :: "('l, 'c, 'f) SaraNcpClient \<Rightarrow> ('l, 'c, 'f) SaraNcpClient" where
  "checkRegistrationState s =
     (if connState_m s \<noteq> DISCONNECTED then
        (if (creg_m s = Registered \<and> cgreg_m s = Registered) \<or> cereg_m s = Registered then
           (let s1 = (if memoryIssuePresent_m s \<and> connState_m s \<noteq> CONNECTED
                      then s\<lparr>registeredTime_m := millis s\<rparr> else s)
            in connectionState CONNECTED s1)
         else if connState_m s = CONNECTED then
           (let s1 = connectionState CONNECTING s
            in s1\<lparr>regStartTime_m := millis s1, regCheckTime_m := millis s1, registeredTime_m := 0\<rparr>)
         else s)
      else s)"

subsection \<open>The registration handlers\<close>

text \<open>
  The part the three handlers share: \<^verbatim>\<open>readLine\<close>, the \<^verbatim>\<open>sscanf\<close> of the notification
  layout, the second \<^verbatim>\<open>sscanf\<close> of the direct-response layout when the first assigned
  nothing, and \<^verbatim>\<open>CHECK_TRUE(r >= 1, ...)\<close>.  \<open>None\<close> is a handler that has returned.
  The handler's own \<^verbatim>\<open>int\<close> result goes back to the parser and is not kept.
\<close>

definition scan_registration ::
  "urc \<Rightarrow> ('l, 'c, 'f) SaraNcpClient \<Rightarrow> scan option \<times> ('l, 'c, 'f) SaraNcpClient" where
  "scan_registration u s =
     (if readLine_r u < 0 then (None, parserError (readLine_r u) s)
      else if \<not> 0 \<ge> assigned (scan_urc u) then (Some (scan_urc u), s)
      else if assigned (scan_direct u) < 0 then (None, parserError (assigned (scan_direct u)) s)
      else if assigned (scan_direct u) \<ge> 1 then (Some (scan_direct u), s)
      else (None, s))"

definition stat_registered :: "32 word \<Rightarrow> RegistrationState" where
  "stat_registered v = (if v = 1 \<or> v = 5 then Registered else NotRegistered)"

text \<open>The \<^verbatim>\<open>case\<close> labels of the \<^verbatim>\<open>switch (rat)\<close> of the +CGREG handler.\<close>

fun cgreg_rat :: "CellularAccessTechnology \<Rightarrow> bool" where
  "cgreg_rat GSM = True"
| "cgreg_rat GSM_COMPACT = True"
| "cgreg_rat UTRAN = True"
| "cgreg_rat GSM_EDGE = True"
| "cgreg_rat UTRAN_HSDPA = True"
| "cgreg_rat UTRAN_HSUPA = True"
| "cgreg_rat UTRAN_HSDPA_HSUPA = True"
| "cgreg_rat _ = False"

text \<open>The \<^verbatim>\<open>case\<close> labels of the \<^verbatim>\<open>switch (rat)\<close> of the +CEREG handler.\<close>

fun cereg_rat :: "CellularAccessTechnology \<Rightarrow> bool" where
  "cereg_rat LTE = True"
| "cereg_rat LTE_CAT_M1 = True"
| "cereg_rat LTE_NB_IOT = True"
| "cereg_rat _ = False"

definition set_lac_cid ::
  "scan \<Rightarrow> ('l, 'c, 'f) client \<Rightarrow> ('l::len, 'c::len, 'f) client" where
  "set_lac_cid v s =
     s\<lparr>cgi_m := (cgi_m s)\<lparr>location_area_code := ucast (val1 v), cell_id := ucast (val2 v)\<rparr>\<rparr>"

definition creg_handler :: "urc \<Rightarrow> ('l, 'c, 'f) client \<Rightarrow> ('l::len, 'c::len, 'f) client" where
  "creg_handler u s =
     (case scan_registration u s of
        (None, s') \<Rightarrow> s'
      | (Some v, s') \<Rightarrow>
          let s1 = checkRegistrationState (s'\<lparr>creg_m := stat_registered (val0 v)\<rparr>)
          in if assigned v \<ge> 3 then
               (if location_area_code (cgi_m s1) = - 1 \<and> cell_id (cgi_m s1) = - 1
                then set_lac_cid v s1 else s1)
             else s1)"

definition cgreg_handler :: "urc \<Rightarrow> ('l, 'c, 'f) client \<Rightarrow> ('l::len, 'c::len, 'f) client" where
  "cgreg_handler u s =
     (case scan_registration u s of
        (None, s') \<Rightarrow> s'
      | (Some v, s') \<Rightarrow>
          let s1 = checkRegistrationState (s'\<lparr>cgreg_m := stat_registered (val0 v)\<rparr>)
          in if assigned v \<ge> 3 then
               (let rat = (if assigned v \<ge> 4 then val3 v else act_m s1)
                in if cgreg_rat rat then set_lac_cid v s1 else s1)
             else s1)"

definition cereg_handler :: "urc \<Rightarrow> ('l, 'c, 'f) client \<Rightarrow> ('l::len, 'c::len, 'f) client" where
  "cereg_handler u s =
     (case scan_registration u s of
        (None, s') \<Rightarrow> s'
      | (Some v, s') \<Rightarrow>
          let s1 = checkRegistrationState (s'\<lparr>cereg_m := stat_registered (val0 v)\<rparr>)
          in if assigned v \<ge> 3 then
               (let rat = (if assigned v \<ge> 4 then val3 v else act_m s1)
                in if cereg_rat rat then set_lac_cid v s1 else s1)
             else s1)"

text \<open>The parser calls the handler registered for the line's prefix.\<close>

definition urc_handler :: "urc \<Rightarrow> ('l, 'c, 'f) client \<Rightarrow> ('l::len, 'c::len, 'f) client" where
  "urc_handler u s =
     (case prefix u of CREG \<Rightarrow> creg_handler u s | CGREG \<Rightarrow> cgreg_handler u s
      | CEREG \<Rightarrow> cereg_handler u s)"

subsection \<open>Exchanges with the parser\<close>

text \<open>
  \<^verbatim>\<open>parser_.execCommand\<close> (and \<^verbatim>\<open>sendCommand\<close> with \<^verbatim>\<open>readResult\<close>): the exchange takes
  its time, the lines that came in are dispatched in order, and the result is returned.
  \<^verbatim>\<open>parser_.processUrc\<close> is the same with the result dropped.
\<close>

definition execCommand ::
  "('l, 'c, 'f) client \<Rightarrow> exec_result \<times> ('l::len, 'c::len, 'f) client" where
  "execCommand s =
     (let rp = env_parser s (env_parser_calls s);
          s1 = s\<lparr>env_parser_calls := Suc (env_parser_calls s), env_clock := env_clock s + took rp\<rparr>
      in (result rp, fold urc_handler (urcs rp) s1))"



subsection \<open>Power sequencing\<close>

text \<open>
  The two polling loops (\<^verbatim>\<open>for (unsigned i = 0; i < n; i++)\<close>): read the power-good
  input, stop when it has the level waited for, else wait 100 ms.
\<close>

fun poll_power ::
  "bool \<Rightarrow> nat \<Rightarrow> ('l, 'c, 'f) SaraNcpClient \<Rightarrow> ('l, 'c, 'f) SaraNcpClient" where
  "poll_power level 0 s = s"
| "poll_power level (Suc n) s =
     (let (powerGood, s1) = modemPowerState s
      in if powerGood = level then s1
         else poll_power level n (HAL_Delay_Milliseconds 100 s1))"

text \<open>
  The branch of \<^verbatim>\<open>modemPowerOn\<close> for a modem that is off: the pulse on \<^verbatim>\<open>UBPWR\<close>
  (50 us for the U201, inside \<^verbatim>\<open>ATOMIC_BLOCK\<close>; 150 ms for the R410), then up to ten
  reads of the power-good input, 100 ms apart.
\<close>

definition powerOn_pulse :: "('l, 'c, 'f) SaraNcpClient \<Rightarrow> ('l, 'c, 'f) SaraNcpClient" where
  "powerOn_pulse s =
     poll_power True 10
       (if conf_ncpIdentifier s \<noteq> PLATFORM_NCP_SARA_R410
        then HAL_GPIO_Write UBPWR 1 (HAL_Delay_Microseconds 50 (HAL_GPIO_Write UBPWR 0 s))
        else HAL_GPIO_Write UBPWR 1 (HAL_Delay_Milliseconds 150 (HAL_GPIO_Write UBPWR 0 s)))"

definition modemPowerOn :: "('l, 'c, 'f) SaraNcpClient \<Rightarrow> ret \<times> ('l, 'c, 'f) SaraNcpClient" where
  "modemPowerOn s =
     (let (on0, s1) = modemPowerState s;
          s2 = (if \<not> on0 then powerOn_pulse s1 else s1);
          (on1, s3) = modemPowerState s2
      in (if on1 then Inr () else Inl SYSTEM_ERROR_INVALID_STATE, s3))"

text \<open>
  The loop of \<^verbatim>\<open>waitForPowerOff\<close>.  It ends on one of its two deadlines or when the
  power-good input reads low; with neither timestamp set it has no deadline, hence
  \<open>option\<close>.
\<close>

partial_function (option) waitForPowerOff_loop ::
  "('l, 'c, 'f) SaraNcpClient \<Rightarrow> ('l, 'c, 'f) SaraNcpClient option" where
  "waitForPowerOff_loop s =
     (if (if registeredTime_m s \<noteq> 0 then millis s - registeredTime_m s \<ge> 20000
          else powerOnTime_m s \<noteq> 0 \<and> millis s - powerOnTime_m s \<ge> 30000)
      then Some s
      else if fst (modemPowerState (HAL_Delay_Milliseconds 100 s))
           then waitForPowerOff_loop (snd (modemPowerState (HAL_Delay_Milliseconds 100 s)))
           else Some (snd (modemPowerState (HAL_Delay_Milliseconds 100 s))))"

definition waitForPowerOff ::
  "('l, 'c, 'f) SaraNcpClient \<Rightarrow> ('l, 'c, 'f) SaraNcpClient option" where
  "waitForPowerOff s =
     (let s1 = (if powerOnTime_m s = 0 then s\<lparr>powerOnTime_m := millis s\<rparr> else s)
      in case waitForPowerOff_loop s1 of
           None \<Rightarrow> None
         | Some s2 \<Rightarrow> Some (s2\<lparr>registeredTime_m := 0, powerOnTime_m := 0\<rparr>))"

text \<open>
  The body run once (\<^verbatim>\<open>std::call_once\<close>) by the first \<^verbatim>\<open>modemPowerOff\<close>: after a
  power-loss or brownout reset, wait until 5 s of uptime before the first power-off.
\<close>

definition powerOff_once :: "('l, 'c, 'f) SaraNcpClient \<Rightarrow> ('l, 'c, 'f) SaraNcpClient" where
  "powerOff_once s =
     (if env_once_flag s then s
      else
        let s0 = s\<lparr>env_once_flag := True\<rparr>
        in if conf_ncpIdentifier s0 \<noteq> PLATFORM_NCP_SARA_R410 then
             (let (on0, s1) = modemPowerState s0
              in if on0 \<and> fst (env_reset_info s1) = 0
                      \<and> (snd (env_reset_info s1) = RESET_REASON_POWER_DOWN
                          \<or> snd (env_reset_info s1) = RESET_REASON_POWER_BROWNOUT)
                      \<and> millis s1 < 5000
                 then HAL_Delay_Milliseconds (unat (5000 - millis s1)) s1
                 else s1)
           else s0)"

text \<open>
  The branch of \<^verbatim>\<open>modemPowerOff\<close> for a modem that is on: the voltage translator is
  disabled, the R410 with the memory issue waits in \<^verbatim>\<open>waitForPowerOff\<close>, then the pulse
  on \<^verbatim>\<open>UBPWR\<close> (1.5 s or 1.6 s) and up to a hundred reads of the power-good input,
  100 ms apart.
\<close>

definition powerOff_pulse ::
  "('l, 'c, 'f) SaraNcpClient \<Rightarrow> ('l, 'c, 'f) SaraNcpClient option" where
  "powerOff_pulse s =
     (let s2 = modemSetUartState False s
      in if conf_ncpIdentifier s2 \<noteq> PLATFORM_NCP_SARA_R410 then
           Some (poll_power False 100
             (HAL_GPIO_Write UBPWR 1 (HAL_Delay_Milliseconds 1500 (HAL_GPIO_Write UBPWR 0 s2))))
         else
           (case (if memoryIssuePresent_m s2 then waitForPowerOff s2 else Some s2) of
              None \<Rightarrow> None
            | Some s3 \<Rightarrow>
                Some (poll_power False 100
                  (HAL_GPIO_Write UBPWR 1 (HAL_Delay_Milliseconds 1600 (HAL_GPIO_Write UBPWR 0 s3))))))"

definition modemPowerOff ::
  "('l, 'c, 'f) SaraNcpClient \<Rightarrow> (ret \<times> ('l, 'c, 'f) SaraNcpClient) option" where
  "modemPowerOff s =
     (let (on0, s1) = modemPowerState (powerOff_once s)
      in case (if on0 then powerOff_pulse s1 else Some s1) of
           None \<Rightarrow> None
         | Some s4 \<Rightarrow>
             (let (on1, s5) = modemPowerState s4
              in Some (if \<not> on1 then Inr () else Inl SYSTEM_ERROR_INVALID_STATE, s5)))"


subsection \<open>Lifecycle\<close>


definition off ::
  "('l, 'c, 'f) SaraNcpClient \<Rightarrow> (ret \<times> ('l, 'c, 'f) SaraNcpClient) option" where
  "off s =
     (if ncpState_m s = DISABLED then Some (Inl SYSTEM_ERROR_INVALID_STATE, s)
      else
        (case modemPowerOff (modemSetUartState False (muxer_stop s)) of
           None \<Rightarrow> None
         | Some (_, s1) \<Rightarrow> Some (Inr (), ncpState OFF (s1\<lparr>ready_m := False\<rparr>))))"

definition enable ::
  "('l, 'c, 'f) SaraNcpClient \<Rightarrow> (ret \<times> ('l, 'c, 'f) SaraNcpClient) option" where
  "enable s =
     (if ncpState_m s \<noteq> DISABLED then Some (Inr (), s)
      else
        (case off (s\<lparr>serial_enabled := True, muxerAtStream_enabled := True,
                     ncpState_m := prevNcpState_m s\<rparr>) of
           None \<Rightarrow> None
         | Some (_, s1) \<Rightarrow> Some (Inr (), s1)))"

definition disable :: "('l, 'c, 'f) SaraNcpClient \<Rightarrow> ('l, 'c, 'f) SaraNcpClient" where
  "disable s =
     (let state = ncpState_m s
      in if state = DISABLED then s
         else s\<lparr>prevNcpState_m := state, ncpState_m := DISABLED,
                serial_enabled := False, muxerAtStream_enabled := False\<rparr>)"

definition setRegistrationTimeout ::
  "32 word \<Rightarrow> ('l, 'c, 'f) SaraNcpClient \<Rightarrow> ret \<times> ('l, 'c, 'f) SaraNcpClient" where
  "setRegistrationTimeout timeout s =
     (Inr (), s\<lparr>registrationTimeout_m := max timeout REGISTRATION_TIMEOUT\<rparr>)"

subsection \<open>The registration watchdog\<close>




subsection \<open>Data-channel flow control\<close>

definition rate_limited :: "('l, 'c, 'f) SaraNcpClient \<Rightarrow> bool" where
  "rate_limited s =
     (conf_ncpIdentifier s = PLATFORM_NCP_SARA_R410
      \<and> fwVersion_m s \<le> UBLOX_NCP_R4_APP_FW_VERSION_NO_HW_FLOW_CONTROL_MAX)"

text \<open>
  \<^verbatim>\<open>dataChannelWrite\<close>.  \<^verbatim>\<open>size\<close> is the length of the data; the byte counter is a
  32-bit \<^verbatim>\<open>size_t\<close>.
\<close>

definition dataChannelWrite ::
  "int \<Rightarrow> 8 word list \<Rightarrow> ('l, 'c, 'f) SaraNcpClient \<Rightarrow> ret \<times> ('l, 'c, 'f) SaraNcpClient" where
  "dataChannelWrite ident data s =
     (let s1 = (if rate_limited s \<and> millis s - lastWindow_m s \<ge> UBLOX_NCP_R4_WINDOW_SIZE_MS
                then s\<lparr>lastWindow_m := millis s, bytesInWindow_m := 0\<rparr> else s)
      in if rate_limited s1 \<and> bytesInWindow_m s1 \<ge> UBLOX_NCP_R4_BYTES_PER_WINDOW_THRESHOLD
         then (Inr (), s1)
         else
           let (err, s2) = muxer_writeChannel UBLOX_NCP_PPP_CHANNEL data s1;
               err1 = (if err = GSM0710_ERROR_FLOW_CONTROL then WRITE_OK else err);
               s3 = (if rate_limited s2 then
                       (let s' = s2\<lparr>bytesInWindow_m := bytesInWindow_m s2 + of_nat (length data)\<rparr>
                        in if bytesInWindow_m s' \<ge> UBLOX_NCP_R4_BYTES_PER_WINDOW_THRESHOLD
                           then s'\<lparr>lastWindow_m := millis s'\<rparr> else s')
                     else s2)
           in (case err1 of
                 WRITE_ERROR e \<Rightarrow> (Inl (MUXER_ERROR e), disable s3)
               | _ \<Rightarrow> (Inr (), s3)))"

subsection \<open>The operator query\<close>

text \<open>
  \<^verbatim>\<open>atoi\<close>: white space, an optional sign, then the leading decimal digits.
\<close>

definition isspace :: "char \<Rightarrow> bool" where
  "isspace c = (c = CHR '' '' \<or> (9 \<le> (of_char c :: nat) \<and> (of_char c :: nat) \<le> 13))"

definition isdigit :: "char \<Rightarrow> bool" where
  "isdigit c = (48 \<le> (of_char c :: nat) \<and> (of_char c :: nat) \<le> 57)"

fun atoi_digits :: "int \<Rightarrow> string \<Rightarrow> int" where
  "atoi_digits acc [] = acc"
| "atoi_digits acc (c # cs) =
     (if isdigit c then atoi_digits (acc * 10 + ((of_char c :: int) - 48)) cs else acc)"

definition atoi :: "string \<Rightarrow> int" where
  "atoi str =
     (case dropWhile isspace str of
        [] \<Rightarrow> 0
      | c # cs \<Rightarrow>
          if c = CHR ''-'' then - atoi_digits 0 cs
          else if c = CHR ''+'' then atoi_digits 0 cs
          else atoi_digits 0 (c # cs))"

text \<open>
  What \<^verbatim>\<open>resp.scanf("+COPS: %*d,%*d,\"%3[0-9]%3[0-9]\",%d", ...)\<close> leaves: the number of
  fields assigned, the two digit strings (the buffers up to their terminator) and the
  access technology the integer is cast to.
\<close>

record cops_scan =
  cops_assigned :: int
  mobileCountryCode :: string
  mobileNetworkCode :: string
  cops_act :: CellularAccessTechnology

text \<open>The \<^verbatim>\<open>case\<close> labels of the \<^verbatim>\<open>switch\<close> of \<^verbatim>\<open>queryAndParseAtCops\<close>.\<close>

fun cops_rat :: "CellularAccessTechnology \<Rightarrow> bool" where
  "cops_rat (ACT_UNNAMED _) = False"
| "cops_rat _ = True"

text \<open>
  \<^verbatim>\<open>queryAndParseAtCops\<close>.  \<open>flag\<close> is \<^verbatim>\<open>CGI_FLAG_TWO_DIGIT_MNC\<close>, whose value the
  sources at hand do not give.  On success the result is the access technology stored
  into \<^verbatim>\<open>qual\<close>.
\<close>

definition queryAndParseAtCops ::
  "'f word \<Rightarrow> cops_scan \<Rightarrow> ('l, 'c, 'f) client
     \<Rightarrow> (system_error + CellularAccessTechnology) \<times> ('l::len, 'c::len, 'f::len) client" where
  "queryAndParseAtCops flag sc s =
     (let (r1, s1) = execCommand s
      in case r1 of
           EXEC_FAILED e \<Rightarrow> (Inl (PARSER_ERROR e), parserError e s1)
         | AT_NOT_OK \<Rightarrow> (Inl SYSTEM_ERROR_AT_NOT_OK, s1)
         | AT_OK \<Rightarrow>
             (let (r2, s2) = execCommand s1
              in if cops_assigned sc < 0
                   then (Inl (PARSER_ERROR (cops_assigned sc)), parserError (cops_assigned sc) s2)
                 else if cops_assigned sc \<noteq> 3 then (Inl SYSTEM_ERROR_AT_RESPONSE_UNEXPECTED, s2)
                 else
                   (case r2 of
                      EXEC_FAILED e \<Rightarrow> (Inl (PARSER_ERROR e), parserError e s2)
                    | AT_NOT_OK \<Rightarrow> (Inl SYSTEM_ERROR_AT_NOT_OK, s2)
                    | AT_OK \<Rightarrow>
                        (let mnc_digits = min (length (mobileNetworkCode sc)) 4
                         in if \<not> (2 = mnc_digits \<or> 3 = mnc_digits) then (Inl SYSTEM_ERROR_BAD_DATA, s2)
                            else
                              let g = cgi_m s2;
                                  g1 = (if 2 = mnc_digits
                                        then g\<lparr>cgi_flags := cgi_flags g OR flag\<rparr>
                                        else g\<lparr>cgi_flags := cgi_flags g AND NOT flag\<rparr>);
                                  g2 = g1\<lparr>mobile_country_code := word_of_int (atoi (mobileCountryCode sc)),
                                          mobile_network_code := word_of_int (atoi (mobileNetworkCode sc))\<rparr>;
                                  s3 = s2\<lparr>cgi_m := g2\<rparr>;
                                  act = (if conf_ncpIdentifier s3 = PLATFORM_NCP_SARA_R410 \<and> cops_act sc = LTE
                                         then LTE_CAT_M1 else cops_act sc)
                              in if cops_rat act then (Inr act, s3)
                                 else (Inl SYSTEM_ERROR_BAD_DATA, s3)))))"

subsection \<open>Predicates and sample states used by the properties\<close>

text \<open>The condition under which \<^verbatim>\<open>checkRegistrationState\<close> asks for \<open>CONNECTED\<close>.\<close>

definition registered :: "('l, 'c, 'f) SaraNcpClient \<Rightarrow> bool" where
  "registered s = ((creg_m s = Registered \<and> cgreg_m s = Registered) \<or> cereg_m s = Registered)"

text \<open>The muxer's answer to the next \<^verbatim>\<open>openChannel\<close> is 0.\<close>

definition data_channel_opens :: "('l, 'c, 'f) SaraNcpClient \<Rightarrow> bool" where
  "data_channel_opens s = (env_openChannel s (env_open_calls s) = 0)"

text \<open>
  A SARA-R410 client that is on and connecting, with nothing registered yet, one second
  after boot; the modem is powered, every AT exchange answers OK at once and the muxer
  accepts everything.  The widths are those of a 16-bit area code, a 32-bit cell id and
  8 flag bits.
\<close>

definition example_client :: "(16, 32, 8) client" where
  "example_client =
     \<lparr>conf_ncpIdentifier = PLATFORM_NCP_SARA_R410, conf_eventHandler = True,
      netConf_user = ''user'', netConf_password = ''pw'',
      ncpState_m = ON, prevNcpState_m = OFF, connState_m = CONNECTING,
      creg_m = NotRegistered, cgreg_m = NotRegistered, cereg_m = NotRegistered,
      regStartTime_m = 1000, regCheckTime_m = 1000, powerOnTime_m = 500, registeredTime_m = 0,
      registrationTimeout_m = 600000, memoryIssuePresent_m = False, parserError_m = 0,
      ready_m = True,
      cgi_m = \<lparr>mobile_country_code = 0, mobile_network_code = 0,
               location_area_code = - 1, cell_id = - 1, cgi_flags = 0\<rparr>,
      act_m = NONE, fwVersion_m = 202, lastWindow_m = 0, bytesInWindow_m = 0,
      serial_enabled = True, muxerAtStream_enabled = True,
      env_clock = 1000, env_vint = (\<lambda>n. True), env_vint_reads = 0,
      env_parser = (\<lambda>n. \<lparr>urcs = [], result = AT_OK, took = 0\<rparr>), env_parser_calls = 0,
      env_openChannel = (\<lambda>n. 0), env_open_calls = 0,
      env_writeChannel = (\<lambda>n. WRITE_OK), env_write_calls = 0,
      env_reset_info = (0, RESET_REASON_OTHER), env_once_flag = False, env_trace = []\<rparr>"

text \<open>
  The scan a registration handler goes on with, if any: the notification layout when it
  assigned a field, else the direct-response layout when it assigned one.
\<close>

definition parsed :: "urc \<Rightarrow> scan option" where
  "parsed u =
     (if readLine_r u < 0 then None
      else if 0 < assigned (scan_urc u) then Some (scan_urc u)
      else if 1 \<le> assigned (scan_direct u) then Some (scan_direct u)
      else None)"

text \<open>The location-area (or tracking-area) code and the cell id of the shared identity.\<close>

definition lac_cid :: "('l, 'c, 'f) SaraNcpClient \<Rightarrow> 'l \<times> 'c" where
  "lac_cid s = (location_area_code (cgi_m s), cell_id (cgi_m s))"

text \<open>
  The access technology a +CGREG or +CEREG handler decides on: the one in the line when
  the line has four fields, else the current one.
\<close>

definition reported_rat :: "scan \<Rightarrow> ('l, 'c, 'f) SaraNcpClient \<Rightarrow> CellularAccessTechnology" where
  "reported_rat v s = (if assigned v \<ge> 4 then val3 v else act_m s)"

text \<open>When a line makes its handler store the line's area code and cell id.\<close>

definition overwrites :: "urc \<Rightarrow> ('l::len, 'c::len, 'f) client \<Rightarrow> bool" where
  "overwrites u s =
     (case parsed u of
        None \<Rightarrow> False
      | Some v \<Rightarrow>
          3 \<le> assigned v \<and>
          (case prefix u of
             CREG \<Rightarrow> lac_cid s = (- 1, - 1)
           | CGREG \<Rightarrow> cgreg_rat (reported_rat v s)
           | CEREG \<Rightarrow> cereg_rat (reported_rat v s)))"

text \<open>A line \<^verbatim>\<open>+CGREG: 2,1,"10","20",0\<close>: registered, area code 0x10, cell 0x20, GSM.\<close>

definition gsm_line :: urc where
  "gsm_line = \<lparr>prefix = CGREG, readLine_r = 24,
      scan_urc = \<lparr>assigned = 4, val0 = 1, val1 = 0x10, val2 = 0x20, val3 = GSM\<rparr>,
      scan_direct = \<lparr>assigned = 0, val0 = 0, val1 = 0, val2 = 0, val3 = ACT_UNNAMED 0\<rparr>\<rparr>"

text \<open>The sample client with an identity already captured: area code 5, cell 7.\<close>

definition located_client :: "(16, 32, 8) client" where
  "located_client =
     example_client\<lparr>cgi_m := (cgi_m example_client)\<lparr>location_area_code := 5, cell_id := 7\<rparr>\<rparr>"

text \<open>
  A client with the fields blanked that the registration handlers may write; two
  clients with the same \<open>handler_frame\<close> agree on every other field.
\<close>

definition handler_frame :: "('l, 'c, 'f) client \<Rightarrow> ('l::len, 'c::len, 'f) client" where
  "handler_frame s =
     s\<lparr>creg_m := NotRegistered, cgreg_m := NotRegistered, cereg_m := NotRegistered,
       connState_m := DISCONNECTED, registeredTime_m := 0, regStartTime_m := 0,
       regCheckTime_m := 0, ready_m := False, parserError_m := 0, env_open_calls := 0,
       env_trace := [],
       cgi_m := (cgi_m s)\<lparr>location_area_code := 0, cell_id := 0\<rparr>\<rparr>"

text \<open>The country code, the network code and the flags of the shared identity.\<close>

definition mnc_part :: "('l, 'c, 'f) SaraNcpClient \<Rightarrow> 16 word \<times> 16 word \<times> 'f" where
  "mnc_part s =
     (mobile_country_code (cgi_m s), mobile_network_code (cgi_m s), cgi_flags (cgi_m s))"

text \<open>The next two exchanges with the parser end with OK.\<close>

definition cops_exchanges_ok :: "('l, 'c, 'f) SaraNcpClient \<Rightarrow> bool" where
  "cops_exchanges_ok s =
     (result (env_parser s (env_parser_calls s)) = AT_OK
      \<and> result (env_parser s (Suc (env_parser_calls s))) = AT_OK)"

text \<open>The scan of \<^verbatim>\<open>+COPS: 0,2,"310" ^ mnc,7\<close>.\<close>

definition cops_line :: "string \<Rightarrow> cops_scan" where
  "cops_line mnc =
     \<lparr>cops_assigned = 3, mobileCountryCode = ''310'', mobileNetworkCode = mnc, cops_act = LTE\<rparr>"

text \<open>
  A client with the fields blanked that the power sequencer may write (the clock, the
  count of power-good reads, the trace, the run-once flag and the two timers of the
  aging guard); two clients with the same \<open>power_frame\<close> agree on every other field.
\<close>

definition power_frame :: "('l, 'c, 'f) SaraNcpClient \<Rightarrow> ('l, 'c, 'f) SaraNcpClient" where
  "power_frame s =
     s\<lparr>env_clock := 0, env_vint_reads := 0, env_trace := [], env_once_flag := False,
       powerOnTime_m := 0, registeredTime_m := 0\<rparr>"

text \<open>
  A step of the power sequencer from \<open>s\<close> to \<open>s'\<close> that takes at most \<open>b\<close> milliseconds: it
  writes no other field, time and the read count do not go back, and the trace only grows.
\<close>

definition power_step ::
  "nat \<Rightarrow> ('l, 'c, 'f) SaraNcpClient \<Rightarrow> ('l, 'c, 'f) SaraNcpClient \<Rightarrow> bool" where
  "power_step b s s' =
     (power_frame s' = power_frame s
      \<and> env_clock s \<le> env_clock s' \<and> env_clock s' \<le> env_clock s + b
      \<and> env_vint_reads s \<le> env_vint_reads s'
      \<and> (\<exists>t. env_trace s' = env_trace s @ t))"

text \<open>
  An upper bound of the time the loop of \<^verbatim>\<open>waitForPowerOff\<close> still takes: what is left to
  its deadline (20 s after registration if there was one, else 30 s after power-on),
  rounded up to its 100 ms step.
\<close>

definition guard_budget :: "('l, 'c, 'f) SaraNcpClient \<Rightarrow> nat" where
  "guard_budget s =
     (if registeredTime_m s \<noteq> 0 then 20099 - unat (millis s - registeredTime_m s)
      else 30099 - unat (millis s - powerOnTime_m s))"

text \<open>
  The aging guard has a deadline: a timestamp is set, or the tick counter does not read 0
  (\<^verbatim>\<open>waitForPowerOff\<close> then takes the current time as the power-on time).
\<close>

definition guard_deadline :: "('l, 'c, 'f) SaraNcpClient \<Rightarrow> bool" where
  "guard_deadline s = (registeredTime_m s \<noteq> 0 \<or> powerOnTime_m s \<noteq> 0 \<or> millis s \<noteq> 0)"

text \<open>
  Where the aging guard runs (the R410 with the memory issue), it has a deadline.
\<close>

definition guard_ends :: "('l, 'c, 'f) SaraNcpClient \<Rightarrow> bool" where
  "guard_ends s =
     (conf_ncpIdentifier s = PLATFORM_NCP_SARA_R410 \<and> memoryIssuePresent_m s \<longrightarrow> guard_deadline s)"







text \<open>
  The sample client 700 s into its connection attempt, its last poll as old; and the
  same with a modem that answers no command.
\<close>

definition overdue_client :: "(16, 32, 8) client" where
  "overdue_client = example_client\<lparr>env_clock := 701000\<rparr>"


text \<open>
  The same client with the firmware that has the memory issue (application version 200),
  for which the aging guard runs.
\<close>

definition aging_client :: "(16, 32, 8) client" where
  "aging_client = overdue_client\<lparr>memoryIssuePresent_m := True, fwVersion_m := 200\<rparr>"


section \<open>Properties\<close>

subsection \<open>Basic facts\<close>

lemmas hal_defs = emit_def handler_def muxer_openChannel_def HAL_GPIO_Write_def
  HAL_Delay_Milliseconds_def HAL_Delay_Microseconds_def muxer_stop_def modemSetUartState_def
  modemPowerState_def millis_def



subsection \<open>Reconciliation of the registration flags\<close>








subsection \<open>The registration timeout\<close>

lemma unat_max_word: "unat (max a b) = max (unat a) (unat (b :: 'a::len word))"
  by (simp add: max_def word_le_nat_alt)

text \<open>
  C9.  \<^verbatim>\<open>setRegistrationTimeout(t)\<close> returns 0 and sets the registration timeout to the
  larger of \<open>t\<close> and 600000 ms (as unsigned numbers), and changes nothing else: the
  timeout can be raised above the default and never falls below it.
\<close>

theorem setRegistrationTimeout_max:
  "fst (setRegistrationTimeout t s) = Inr ()
   \<and> snd (setRegistrationTimeout t s) = s\<lparr>registrationTimeout_m := max t REGISTRATION_TIMEOUT\<rparr>
   \<and> unat (registrationTimeout_m (snd (setRegistrationTimeout t s))) = max (unat t) 600000
   \<and> unat REGISTRATION_TIMEOUT = 600000"
  by (simp add: setRegistrationTimeout_def REGISTRATION_TIMEOUT_def unat_max_word)

subsection \<open>Opening the data channel\<close>

lemma open_calls_connectionState:
  "env_open_calls (connectionState st s) =
     (if st = CONNECTED \<and> connState_m s \<noteq> CONNECTED \<and> ncpState_m s \<noteq> DISABLED
      then Suc (env_open_calls s) else env_open_calls s)"
  by (simp add: connectionState_def Let_def hal_defs split: prod.splits)

lemma open_calls_checkRegistrationState:
  "env_open_calls (checkRegistrationState s) =
     (if connState_m s = CONNECTING \<and> registered s \<and> ncpState_m s \<noteq> DISABLED
      then Suc (env_open_calls s) else env_open_calls s)"
  by (cases "connState_m s")
     (auto simp add: checkRegistrationState_def open_calls_connectionState Let_def registered_def)

lemma connectionState_open_refused:
  "connState_m s \<noteq> CONNECTED \<Longrightarrow> ncpState_m s \<noteq> DISABLED \<Longrightarrow> \<not> data_channel_opens s \<Longrightarrow>
   connState_m (connectionState CONNECTED s) = DISCONNECTED
   \<and> \<not> ready_m (connectionState CONNECTED s)"
  by (simp add: connectionState_def Let_def hal_defs data_channel_opens_def split: prod.splits)

lemma checkRegistrationState_open_refused:
  "connState_m s = CONNECTING \<Longrightarrow> registered s \<Longrightarrow> ncpState_m s \<noteq> DISABLED \<Longrightarrow>
   \<not> data_channel_opens s \<Longrightarrow>
   connState_m (checkRegistrationState s) = DISCONNECTED \<and> \<not> ready_m (checkRegistrationState s)"
  by (simp add: checkRegistrationState_def connectionState_def Let_def hal_defs
        data_channel_opens_def registered_def split: prod.splits)

text \<open>
  C6.  \<^verbatim>\<open>connectionState\<close> calls \<^verbatim>\<open>openChannel\<close> for the data channel exactly when it is
  asked for \<open>CONNECTED\<close>, the state is not \<open>CONNECTED\<close> yet and the client is not
  disabled; \<^verbatim>\<open>checkRegistrationState\<close>, the one caller that asks for \<open>CONNECTED\<close>, makes
  that call exactly on a promotion from \<open>CONNECTING\<close>.  Whenever the call on such a
  transition fails, the connection state is \<open>DISCONNECTED\<close> and the readiness flag is
  cleared.
\<close>

theorem data_channel_opened_on_promotion:
  "env_open_calls (connectionState st s) =
     (if st = CONNECTED \<and> connState_m s \<noteq> CONNECTED \<and> ncpState_m s \<noteq> DISABLED
      then Suc (env_open_calls s) else env_open_calls s)
   \<and> env_open_calls (checkRegistrationState s) =
     (if connState_m s = CONNECTING \<and> registered s \<and> ncpState_m s \<noteq> DISABLED
      then Suc (env_open_calls s) else env_open_calls s)
   \<and> (connState_m s \<noteq> CONNECTED \<and> ncpState_m s \<noteq> DISABLED \<and> \<not> data_channel_opens s \<longrightarrow>
        connState_m (connectionState CONNECTED s) = DISCONNECTED
        \<and> \<not> ready_m (connectionState CONNECTED s))
   \<and> (connState_m s = CONNECTING \<and> registered s \<and> ncpState_m s \<noteq> DISABLED
        \<and> \<not> data_channel_opens s \<longrightarrow>
        connState_m (checkRegistrationState s) = DISCONNECTED
        \<and> \<not> ready_m (checkRegistrationState s))"
  using connectionState_open_refused [of s] checkRegistrationState_open_refused [of s]
  by (simp only: open_calls_connectionState open_calls_checkRegistrationState) blast

theorem data_channel_opened_on_promotion_witness:
  "env_open_calls (checkRegistrationState
      (example_client\<lparr>cereg_m := Registered, env_openChannel := (\<lambda>n. 3)\<rparr>)) = 1
   \<and> connState_m (checkRegistrationState
      (example_client\<lparr>cereg_m := Registered, env_openChannel := (\<lambda>n. 3)\<rparr>)) = DISCONNECTED
   \<and> \<not> ready_m (checkRegistrationState
      (example_client\<lparr>cereg_m := Registered, env_openChannel := (\<lambda>n. 3)\<rparr>))
   \<and> env_open_calls (connectionState CONNECTING
      (example_client\<lparr>connState_m := CONNECTED\<rparr>)) = 0"
  using data_channel_opened_on_promotion
          [of CONNECTED "example_client\<lparr>cereg_m := Registered, env_openChannel := (\<lambda>n. 3)\<rparr>"]
        data_channel_opened_on_promotion
          [of CONNECTING "example_client\<lparr>connState_m := CONNECTED\<rparr>"]
  by (simp add: example_client_def registered_def data_channel_opens_def)

subsection \<open>The identity fields written by the registration handlers\<close>

lemma fst_scan_registration: "fst (scan_registration u s) = parsed u"
  by (auto simp add: scan_registration_def parsed_def)

lemma cgi_scan_registration: "cgi_m (snd (scan_registration u s)) = cgi_m s"
  and act_scan_registration: "act_m (snd (scan_registration u s)) = act_m s"
  by (auto simp add: scan_registration_def parserError_def)

lemma cgi_connectionState: "cgi_m (connectionState st s) = cgi_m s"
  and act_connectionState: "act_m (connectionState st s) = act_m s"
  by (simp_all add: connectionState_def Let_def hal_defs split: prod.splits)

lemma cgi_checkRegistrationState: "cgi_m (checkRegistrationState s) = cgi_m s"
  and act_checkRegistrationState: "act_m (checkRegistrationState s) = act_m s"
  by (simp_all add: checkRegistrationState_def Let_def cgi_connectionState act_connectionState)

lemma lac_cid_creg:
  "prefix u = CREG \<Longrightarrow> lac_cid (creg_handler u s) =
     (case parsed u of None \<Rightarrow> lac_cid s
      | Some v \<Rightarrow> if overwrites u s then (ucast (val1 v), ucast (val2 v)) else lac_cid s)"
  apply (cases "scan_registration u s")
  subgoal for a b
    using fst_scan_registration [of u s] cgi_scan_registration [of u s]
    apply (cases a)
    apply (auto simp add: creg_handler_def overwrites_def lac_cid_def Let_def set_lac_cid_def
       cgi_checkRegistrationState parsed_def split: option.splits)
    done
  done

lemma lac_cid_cgreg:
  "prefix u = CGREG \<Longrightarrow> lac_cid (cgreg_handler u s) =
     (case parsed u of None \<Rightarrow> lac_cid s
      | Some v \<Rightarrow> if overwrites u s then (ucast (val1 v), ucast (val2 v)) else lac_cid s)"
  apply (cases "scan_registration u s")
  subgoal for a b
    using fst_scan_registration [of u s] cgi_scan_registration [of u s]
      act_scan_registration [of u s]
    apply (cases a)
    apply (auto simp add: cgreg_handler_def overwrites_def lac_cid_def Let_def set_lac_cid_def
       cgi_checkRegistrationState act_checkRegistrationState parsed_def reported_rat_def
       split: option.splits)
    done
  done

lemma lac_cid_cereg:
  "prefix u = CEREG \<Longrightarrow> lac_cid (cereg_handler u s) =
     (case parsed u of None \<Rightarrow> lac_cid s
      | Some v \<Rightarrow> if overwrites u s then (ucast (val1 v), ucast (val2 v)) else lac_cid s)"
  apply (cases "scan_registration u s")
  subgoal for a b
    using fst_scan_registration [of u s] cgi_scan_registration [of u s]
      act_scan_registration [of u s]
    apply (cases a)
    apply (auto simp add: cereg_handler_def overwrites_def lac_cid_def Let_def set_lac_cid_def
       cgi_checkRegistrationState act_checkRegistrationState parsed_def reported_rat_def
       split: option.splits)
    done
  done

text \<open>
  C2 (as amended).  A registration handler stores the area code and the cell id of its
  line, both together, exactly when the line parsed with at least three fields and
  \<^item> for +CREG: both fields still hold the unset value (all bits set), whatever access
    technology the line reports;
  \<^item> for +CGREG: the access technology of the line (the current one when the line has
    none) is a GSM or UTRAN one, whether the fields are unset or not;
  \<^item> for +CEREG: that access technology is an LTE one, whether the fields are unset or not.
  In every other case the two fields keep their values.
\<close>

theorem registration_handlers_lac_cid:
  "lac_cid (urc_handler u s) =
     (case parsed u of
        None \<Rightarrow> lac_cid s
      | Some v \<Rightarrow> if overwrites u s then (ucast (val1 v), ucast (val2 v)) else lac_cid s)"
proof (cases "prefix u")
  case CREG
  then show ?thesis using lac_cid_creg [of u s] by (simp add: urc_handler_def)
next
  case CGREG
  then show ?thesis using lac_cid_cgreg [of u s] by (simp add: urc_handler_def)
next
  case CEREG
  then show ?thesis using lac_cid_cereg [of u s] by (simp add: urc_handler_def)
qed

theorem registration_handlers_lac_cid_witness:
  "lac_cid (urc_handler gsm_line example_client) = (16, 32)
   \<and> lac_cid (urc_handler (gsm_line\<lparr>prefix := CREG\<rparr>) located_client) = (5, 7)
   \<and> lac_cid (urc_handler (gsm_line\<lparr>prefix := CEREG\<rparr>) located_client) = (5, 7)"
  using registration_handlers_lac_cid [of gsm_line example_client]
        registration_handlers_lac_cid [of "gsm_line\<lparr>prefix := CREG\<rparr>" located_client]
        registration_handlers_lac_cid [of "gsm_line\<lparr>prefix := CEREG\<rparr>" located_client]
  by (simp add: gsm_line_def parsed_def overwrites_def reported_rat_def lac_cid_def
        example_client_def located_client_def)

text \<open>
  The claim as stated fails twice.  A +CGREG line overwrites fields that are set (area
  code 5 and cell 7 become 0x10 and 0x20); and a +CREG line that reports LTE, which is
  not a technology of the circuit-switched family, fills the unset fields.
\<close>

theorem registration_handlers_overwrite_counterexample:
  "lac_cid located_client = (5, 7)
   \<and> lac_cid (urc_handler gsm_line located_client) = (16, 32)
   \<and> lac_cid example_client = (- 1, - 1)
   \<and> lac_cid (urc_handler
        (gsm_line\<lparr>prefix := CREG, scan_urc := (scan_urc gsm_line)\<lparr>val3 := LTE\<rparr>\<rparr>)
        example_client) = (16, 32)"
proof -
  have "lac_cid (urc_handler gsm_line located_client) = (16, 32)"
    by (simp add: lac_cid_cgreg urc_handler_def gsm_line_def parsed_def overwrites_def
          reported_rat_def)
  moreover have "lac_cid (urc_handler
        (gsm_line\<lparr>prefix := CREG, scan_urc := (scan_urc gsm_line)\<lparr>val3 := LTE\<rparr>\<rparr>)
        example_client) = (16, 32)"
    by (simp add: lac_cid_creg urc_handler_def gsm_line_def parsed_def overwrites_def)
       (simp add: lac_cid_def example_client_def)
  moreover have "lac_cid located_client = (5, 7)" "lac_cid example_client = (- 1, - 1)"
    by (simp_all add: lac_cid_def located_client_def example_client_def)
  ultimately show ?thesis by simp
qed

subsection \<open>The data-channel write window\<close>

lemma rate_limited_update [simp]:
  "rate_limited (s\<lparr>lastWindow_m := a\<rparr>) = rate_limited s"
  "rate_limited (s\<lparr>bytesInWindow_m := b\<rparr>) = rate_limited s"
  "rate_limited (s\<lparr>env_write_calls := c\<rparr>) = rate_limited s"
  "rate_limited (s\<lparr>env_trace := t\<rparr>) = rate_limited s"
  by (simp_all add: rate_limited_def)

lemma trace_disable: "env_trace (disable s) = env_trace s"
  and bytesInWindow_disable: "bytesInWindow_m (disable s) = bytesInWindow_m s"
  and lastWindow_disable: "lastWindow_m (disable s) = lastWindow_m s"
  by (simp_all add: disable_def Let_def)

lemmas window_defs = dataChannelWrite_def UBLOX_NCP_R4_WINDOW_SIZE_MS_def
  UBLOX_NCP_R4_BYTES_PER_WINDOW_THRESHOLD_def Let_def muxer_writeChannel_def emit_def
  millis_def

lemma dataChannelWrite_drops:
  "rate_limited s \<Longrightarrow> millis s - lastWindow_m s < 50 \<Longrightarrow> 512 \<le> bytesInWindow_m s \<Longrightarrow>
   dataChannelWrite i d s = (Inr (), s)"
  by (simp add: window_defs not_le [symmetric])

lemma dataChannelWrite_accepts:
  "rate_limited s \<Longrightarrow> millis s - lastWindow_m s < 50 \<Longrightarrow> bytesInWindow_m s < 512 \<Longrightarrow>
   env_trace (snd (dataChannelWrite i d s))
     = env_trace s @ [Muxer_writeChannel UBLOX_NCP_PPP_CHANNEL d]
   \<and> bytesInWindow_m (snd (dataChannelWrite i d s)) = bytesInWindow_m s + of_nat (length d)
   \<and> lastWindow_m (snd (dataChannelWrite i d s)) =
       (if 512 \<le> bytesInWindow_m s + of_nat (length d) then millis s else lastWindow_m s)"
  by (auto simp add: window_defs not_le [symmetric] trace_disable bytesInWindow_disable
        lastWindow_disable split: write_result.splits prod.splits)

lemma dataChannelWrite_rolls_over:
  "rate_limited s \<Longrightarrow> 50 \<le> millis s - lastWindow_m s \<Longrightarrow>
   env_trace (snd (dataChannelWrite i d s))
     = env_trace s @ [Muxer_writeChannel UBLOX_NCP_PPP_CHANNEL d]
   \<and> bytesInWindow_m (snd (dataChannelWrite i d s)) = of_nat (length d)
   \<and> lastWindow_m (snd (dataChannelWrite i d s)) = millis s"
  by (auto simp add: window_defs trace_disable bytesInWindow_disable lastWindow_disable
        split: write_result.splits prod.splits)

lemma dataChannelWrite_result:
  "fst (dataChannelWrite i d s) = Inr ()
   \<or> (\<exists>e. fst (dataChannelWrite i d s) = Inl (MUXER_ERROR e)
          \<and> env_writeChannel s (env_write_calls s) = WRITE_ERROR e)"
  by (auto simp add: window_defs split: write_result.splits prod.splits)

text \<open>
  C4 (as amended).  On the rate-limited chip family and firmware range,
  \<^verbatim>\<open>dataChannelWrite\<close> keeps a window start and a byte counter.  A write made less than
  50 ms after the window start while the counter has reached 512 is dropped whole:
  nothing is handed to the muxer, nothing changes, and 0 is returned.  A write made
  while the counter is below 512 is handed to the muxer whole, whatever its length; the
  counter grows by the length, and the window start moves to the current time when the
  counter thereby reaches 512.  A write made 50 ms or more after the window start is
  handed to the muxer whole and restarts the window and the counter.  The only errors
  returned are those of the muxer other than its flow control.
\<close>

theorem dataChannelWrite_window:
  "rate_limited s \<longrightarrow>
     (millis s - lastWindow_m s < 50 \<and> 512 \<le> bytesInWindow_m s \<longrightarrow>
        dataChannelWrite i d s = (Inr (), s))
     \<and> (millis s - lastWindow_m s < 50 \<and> bytesInWindow_m s < 512 \<longrightarrow>
        env_trace (snd (dataChannelWrite i d s))
          = env_trace s @ [Muxer_writeChannel UBLOX_NCP_PPP_CHANNEL d]
        \<and> bytesInWindow_m (snd (dataChannelWrite i d s))
          = bytesInWindow_m s + of_nat (length d)
        \<and> lastWindow_m (snd (dataChannelWrite i d s)) =
            (if 512 \<le> bytesInWindow_m s + of_nat (length d) then millis s
             else lastWindow_m s))
     \<and> (50 \<le> millis s - lastWindow_m s \<longrightarrow>
        env_trace (snd (dataChannelWrite i d s))
          = env_trace s @ [Muxer_writeChannel UBLOX_NCP_PPP_CHANNEL d]
        \<and> bytesInWindow_m (snd (dataChannelWrite i d s)) = of_nat (length d)
        \<and> lastWindow_m (snd (dataChannelWrite i d s)) = millis s)
     \<and> (fst (dataChannelWrite i d s) = Inr ()
        \<or> (\<exists>e. fst (dataChannelWrite i d s) = Inl (MUXER_ERROR e)
               \<and> env_writeChannel s (env_write_calls s) = WRITE_ERROR e))"
proof (intro impI conjI)
  assume r: "rate_limited s"
  show "fst (dataChannelWrite i d s) = Inr ()
        \<or> (\<exists>e. fst (dataChannelWrite i d s) = Inl (MUXER_ERROR e)
               \<and> env_writeChannel s (env_write_calls s) = WRITE_ERROR e)"
    by (rule dataChannelWrite_result)
  {
    assume "millis s - lastWindow_m s < 50 \<and> 512 \<le> bytesInWindow_m s"
    with r show "dataChannelWrite i d s = (Inr (), s)"
      by (simp add: dataChannelWrite_drops)
  }
  {
    assume a: "millis s - lastWindow_m s < 50 \<and> bytesInWindow_m s < 512"
    from r a show "env_trace (snd (dataChannelWrite i d s))
          = env_trace s @ [Muxer_writeChannel UBLOX_NCP_PPP_CHANNEL d]"
      by (simp add: dataChannelWrite_accepts)
    from r a show "bytesInWindow_m (snd (dataChannelWrite i d s))
          = bytesInWindow_m s + of_nat (length d)"
      by (simp add: dataChannelWrite_accepts)
    from r a show "lastWindow_m (snd (dataChannelWrite i d s)) =
            (if 512 \<le> bytesInWindow_m s + of_nat (length d) then millis s
             else lastWindow_m s)"
      by (simp only: dataChannelWrite_accepts)
  }
  {
    assume a: "50 \<le> millis s - lastWindow_m s"
    from r a show "env_trace (snd (dataChannelWrite i d s))
          = env_trace s @ [Muxer_writeChannel UBLOX_NCP_PPP_CHANNEL d]"
      by (simp add: dataChannelWrite_rolls_over)
    from r a show "bytesInWindow_m (snd (dataChannelWrite i d s)) = of_nat (length d)"
      by (simp add: dataChannelWrite_rolls_over)
    from r a show "lastWindow_m (snd (dataChannelWrite i d s)) = millis s"
      by (simp add: dataChannelWrite_rolls_over)
  }
qed

theorem dataChannelWrite_window_witness:
  "dataChannelWrite 0 [1, 2, 3] (example_client\<lparr>lastWindow_m := 990, bytesInWindow_m := 512\<rparr>)
     = (Inr (), example_client\<lparr>lastWindow_m := 990, bytesInWindow_m := 512\<rparr>)
   \<and> bytesInWindow_m (snd (dataChannelWrite 0 [1, 2, 3]
        (example_client\<lparr>lastWindow_m := 990, bytesInWindow_m := 500\<rparr>))) = 503
   \<and> env_trace (snd (dataChannelWrite 0 [1, 2, 3]
        (example_client\<lparr>lastWindow_m := 900, bytesInWindow_m := 512\<rparr>)))
       = [Muxer_writeChannel UBLOX_NCP_PPP_CHANNEL [1, 2, 3]]
   \<and> bytesInWindow_m (snd (dataChannelWrite 0 [1, 2, 3]
        (example_client\<lparr>lastWindow_m := 900, bytesInWindow_m := 512\<rparr>))) = 3"
  using dataChannelWrite_window
          [of "example_client\<lparr>lastWindow_m := 990, bytesInWindow_m := 512\<rparr>" 0 "[1, 2, 3]"]
        dataChannelWrite_window
          [of "example_client\<lparr>lastWindow_m := 990, bytesInWindow_m := 500\<rparr>" 0 "[1, 2, 3]"]
        dataChannelWrite_window
          [of "example_client\<lparr>lastWindow_m := 900, bytesInWindow_m := 512\<rparr>" 0 "[1, 2, 3]"]
  by (simp add: example_client_def rate_limited_def millis_def
        UBLOX_NCP_R4_APP_FW_VERSION_NO_HW_FLOW_CONTROL_MAX_def)

text \<open>
  The claim as stated fails on its own example: 600 bytes written in one window (10 ms
  after its start, counter at 0) are handed to the muxer in full, none is dropped, and
  the counter stands at 600.
\<close>

theorem dataChannelWrite_whole_write_counterexample:
  "rate_limited (example_client\<lparr>lastWindow_m := 990\<rparr>)
   \<and> millis (example_client\<lparr>lastWindow_m := 990\<rparr>)
       - lastWindow_m (example_client\<lparr>lastWindow_m := 990\<rparr>) = 10
   \<and> env_trace (snd (dataChannelWrite 0 (replicate 600 0) (example_client\<lparr>lastWindow_m := 990\<rparr>)))
       = [Muxer_writeChannel 2 (replicate 600 0)]
   \<and> bytesInWindow_m (snd (dataChannelWrite 0 (replicate 600 0)
        (example_client\<lparr>lastWindow_m := 990\<rparr>))) = 600"
  by (simp add: window_defs example_client_def rate_limited_def
        UBLOX_NCP_R4_APP_FW_VERSION_NO_HW_FLOW_CONTROL_MAX_def UBLOX_NCP_PPP_CHANNEL_def)

subsection \<open>What the registration handlers leave alone\<close>



lemma frame_connectionState: "handler_frame (connectionState st s) = handler_frame s"
  by (simp add: connectionState_def Let_def hal_defs handler_frame_def split: prod.splits)

lemma frame_checkRegistrationState: "handler_frame (checkRegistrationState s) = handler_frame s"
proof -
  have a: "\<And>x. handler_frame (x\<lparr>registeredTime_m := millis s\<rparr>) = handler_frame x"
    by (simp add: handler_frame_def)
  have b: "\<And>x a b c. handler_frame (x\<lparr>regStartTime_m := a, regCheckTime_m := b, registeredTime_m := c\<rparr>) = handler_frame x"
    by (simp add: handler_frame_def)
  show ?thesis
    by (simp add: checkRegistrationState_def Let_def frame_connectionState a b)
qed

lemma frame_scan_registration: "handler_frame (snd (scan_registration u s)) = handler_frame s"
  by (simp add: scan_registration_def parserError_def handler_frame_def)

lemma frame_set_lac_cid: "handler_frame (set_lac_cid v s) = handler_frame s"
  by (simp add: set_lac_cid_def handler_frame_def)

lemma frame_reg_update:
  "handler_frame (s\<lparr>creg_m := a\<rparr>) = handler_frame s"
  "handler_frame (s\<lparr>cgreg_m := a\<rparr>) = handler_frame s"
  "handler_frame (s\<lparr>cereg_m := a\<rparr>) = handler_frame s"
  by (simp_all add: handler_frame_def)

lemma frame_urc_handler: "handler_frame (urc_handler u s) = handler_frame s"
proof -
  obtain a b where ab: "scan_registration u s = (a, b)" by (cases "scan_registration u s")
  then have b: "handler_frame b = handler_frame s"
    using frame_scan_registration [of u s] by simp
  show ?thesis
    by (cases "prefix u"; cases a)
       (simp_all add: urc_handler_def creg_handler_def cgreg_handler_def cereg_handler_def ab b
          Let_def frame_set_lac_cid frame_checkRegistrationState frame_reg_update)
qed

lemma frame_fold: "handler_frame (fold urc_handler us s) = handler_frame s"
  by (induction us arbitrary: s) (simp_all add: frame_urc_handler)

lemma frame_execCommand:
  "handler_frame (snd (execCommand s)) =
     handler_frame (s\<lparr>env_parser_calls := Suc (env_parser_calls s),
        env_clock := env_clock s + took (env_parser s (env_parser_calls s))\<rparr>)"
  by (simp add: execCommand_def Let_def frame_fold)

lemma fst_execCommand: "fst (execCommand s) = result (env_parser s (env_parser_calls s))"
  by (simp add: execCommand_def Let_def)

lemma frame_fields:
  assumes "handler_frame s' = handler_frame s"
  shows "mobile_country_code (cgi_m s') = mobile_country_code (cgi_m s)"
    and "mobile_network_code (cgi_m s') = mobile_network_code (cgi_m s)"
    and "cgi_flags (cgi_m s') = cgi_flags (cgi_m s)"
    and "env_parser s' = env_parser s"
    and "env_parser_calls s' = env_parser_calls s"
    and "conf_ncpIdentifier s' = conf_ncpIdentifier s"
    and "ncpState_m s' = ncpState_m s"
    and "env_clock s' = env_clock s"
proof -
  have "cgi_m (handler_frame s') = cgi_m (handler_frame s)" using assms by simp
  then have c: "(cgi_m s')\<lparr>location_area_code := 0, cell_id := 0\<rparr> = (cgi_m s)\<lparr>location_area_code := 0, cell_id := 0\<rparr>"
    by (simp add: handler_frame_def)
  from arg_cong [OF c, of mobile_country_code]
  show "mobile_country_code (cgi_m s') = mobile_country_code (cgi_m s)" by simp
  from arg_cong [OF c, of mobile_network_code]
  show "mobile_network_code (cgi_m s') = mobile_network_code (cgi_m s)" by simp
  from arg_cong [OF c, of cgi_flags]
  show "cgi_flags (cgi_m s') = cgi_flags (cgi_m s)" by simp
  from arg_cong [OF assms, of env_parser]
  show "env_parser s' = env_parser s" by (simp add: handler_frame_def)
  from arg_cong [OF assms, of env_parser_calls]
  show "env_parser_calls s' = env_parser_calls s" by (simp add: handler_frame_def)
  from arg_cong [OF assms, of conf_ncpIdentifier]
  show "conf_ncpIdentifier s' = conf_ncpIdentifier s" by (simp add: handler_frame_def)
  from arg_cong [OF assms, of ncpState_m]
  show "ncpState_m s' = ncpState_m s" by (simp add: handler_frame_def)
  from arg_cong [OF assms, of env_clock]
  show "env_clock s' = env_clock s" by (simp add: handler_frame_def)
qed


subsection \<open>The operator query\<close>


lemma execCommand_keeps:
  "mobile_country_code (cgi_m (snd (execCommand s))) = mobile_country_code (cgi_m s)"
  "mobile_network_code (cgi_m (snd (execCommand s))) = mobile_network_code (cgi_m s)"
  "cgi_flags (cgi_m (snd (execCommand s))) = cgi_flags (cgi_m s)"
  "env_parser (snd (execCommand s)) = env_parser s"
  "env_parser_calls (snd (execCommand s)) = Suc (env_parser_calls s)"
  "conf_ncpIdentifier (snd (execCommand s)) = conf_ncpIdentifier s"
  "ncpState_m (snd (execCommand s)) = ncpState_m s"
  "env_clock (snd (execCommand s)) = env_clock s + took (env_parser s (env_parser_calls s))"
  using frame_fields [OF frame_execCommand [of s]] by simp_all



lemma queryAndParseAtCops_success:
  assumes "fst (queryAndParseAtCops flag sc s) = Inr act"
  shows "(length (mobileNetworkCode sc) = 2 \<or> length (mobileNetworkCode sc) = 3)
    \<and> mnc_part (snd (queryAndParseAtCops flag sc s)) =
        (word_of_int (atoi (mobileCountryCode sc)), word_of_int (atoi (mobileNetworkCode sc)),
         if length (mobileNetworkCode sc) = 2 then cgi_flags (cgi_m s) OR flag
         else cgi_flags (cgi_m s) AND NOT flag)"
proof -
  obtain r1 s1 where e1: "execCommand s = (r1, s1)" by (cases "execCommand s")
  obtain r2 s2 where e2: "execCommand s1 = (r2, s2)" by (cases "execCommand s1")
  have f1: "cgi_flags (cgi_m s1) = cgi_flags (cgi_m s)"
    using execCommand_keeps(3) [of s] e1 by simp
  have f2: "cgi_flags (cgi_m s2) = cgi_flags (cgi_m s)"
    using execCommand_keeps(3) [of s1] e2 f1 by simp
  from assms show ?thesis
    by (auto simp add: queryAndParseAtCops_def e1 e2 f2 Let_def mnc_part_def min_def
          split: exec_result.splits if_splits)
qed

lemma queryAndParseAtCops_bad_digits:
  assumes "cops_exchanges_ok s" "cops_assigned sc = 3"
    and "length (mobileNetworkCode sc) \<noteq> 2" "length (mobileNetworkCode sc) \<noteq> 3"
  shows "fst (queryAndParseAtCops flag sc s) = Inl SYSTEM_ERROR_BAD_DATA
    \<and> mnc_part (snd (queryAndParseAtCops flag sc s)) = mnc_part s"
proof -
  obtain r1 s1 where e1: "execCommand s = (r1, s1)" by (cases "execCommand s")
  obtain r2 s2 where e2: "execCommand s1 = (r2, s2)" by (cases "execCommand s1")
  have r1: "r1 = AT_OK" using fst_execCommand [of s] e1 assms(1)
    by (simp add: cops_exchanges_ok_def)
  have "env_parser s1 = env_parser s" "env_parser_calls s1 = Suc (env_parser_calls s)"
    using execCommand_keeps(4,5) [of s] e1 by simp_all
  then have r2: "r2 = AT_OK" using fst_execCommand [of s1] e2 assms(1)
    by (simp add: cops_exchanges_ok_def)
  have "mnc_part s1 = mnc_part s"
    using execCommand_keeps(1,2,3) [of s] e1 by (simp add: mnc_part_def)
  moreover have "mnc_part s2 = mnc_part s1"
    using execCommand_keeps(1,2,3) [of s1] e2 by (simp add: mnc_part_def)
  ultimately have m: "mnc_part s2 = mnc_part s" by simp
  from assms(2,3,4) show ?thesis
    by (auto simp add: queryAndParseAtCops_def e1 e2 r1 r2 m Let_def min_def)
qed

lemma flag_set: "(x OR f) AND f = (f :: 'a::len word)"
  by (simp add: bit_eq_iff bit_simps)

lemma flag_cleared: "(x AND NOT f) AND f = (0 :: 'a::len word)"
  by (simp add: bit_eq_iff bit_simps) 



text \<open>
  C8.  When \<^verbatim>\<open>queryAndParseAtCops\<close> succeeds, the network-code string had two or three
  digits, the stored network code is its value, and the two-digit flag is set for a
  two-digit string and cleared for a three-digit one.  When both exchanges end with OK
  and three fields were scanned but the network-code string has any other length, the
  result is the bad-data error and the country code, network code and flags are as
  before.
\<close>

theorem queryAndParseAtCops_mnc_digits:
  "(fst (queryAndParseAtCops flag sc s) = Inr act \<longrightarrow>
      (length (mobileNetworkCode sc) = 2 \<or> length (mobileNetworkCode sc) = 3)
      \<and> mobile_network_code (cgi_m (snd (queryAndParseAtCops flag sc s)))
          = word_of_int (atoi (mobileNetworkCode sc))
      \<and> (length (mobileNetworkCode sc) = 2 \<longrightarrow>
            cgi_flags (cgi_m (snd (queryAndParseAtCops flag sc s))) AND flag = flag)
      \<and> (length (mobileNetworkCode sc) = 3 \<longrightarrow>
            cgi_flags (cgi_m (snd (queryAndParseAtCops flag sc s))) AND flag = 0))
   \<and> (cops_exchanges_ok s \<and> cops_assigned sc = 3
        \<and> length (mobileNetworkCode sc) \<noteq> 2 \<and> length (mobileNetworkCode sc) \<noteq> 3 \<longrightarrow>
      fst (queryAndParseAtCops flag sc s) = Inl SYSTEM_ERROR_BAD_DATA
      \<and> mnc_part (snd (queryAndParseAtCops flag sc s)) = mnc_part s)"
proof (intro conjI impI)
  assume a: "fst (queryAndParseAtCops flag sc s) = Inr act"
  note b = queryAndParseAtCops_success [OF a]
  from b show "length (mobileNetworkCode sc) = 2 \<or> length (mobileNetworkCode sc) = 3"
    by simp
  from b show "mobile_network_code (cgi_m (snd (queryAndParseAtCops flag sc s)))
          = word_of_int (atoi (mobileNetworkCode sc))"
    by (simp add: mnc_part_def)
  {
    assume "length (mobileNetworkCode sc) = 2"
    with b show "cgi_flags (cgi_m (snd (queryAndParseAtCops flag sc s))) AND flag = flag"
      by (simp add: mnc_part_def flag_set)
  }
  {
    assume "length (mobileNetworkCode sc) = 3"
    with b show "cgi_flags (cgi_m (snd (queryAndParseAtCops flag sc s))) AND flag = 0"
      by (simp add: mnc_part_def flag_cleared)
  }
next
  assume a: "cops_exchanges_ok s \<and> cops_assigned sc = 3
        \<and> length (mobileNetworkCode sc) \<noteq> 2 \<and> length (mobileNetworkCode sc) \<noteq> 3"
  then have b: "fst (queryAndParseAtCops flag sc s) = Inl SYSTEM_ERROR_BAD_DATA
    \<and> mnc_part (snd (queryAndParseAtCops flag sc s)) = mnc_part s"
    by (simp add: queryAndParseAtCops_bad_digits)
  from b show "fst (queryAndParseAtCops flag sc s) = Inl SYSTEM_ERROR_BAD_DATA" by simp
  from b show "mnc_part (snd (queryAndParseAtCops flag sc s)) = mnc_part s" by simp
qed

lemma queryAndParseAtCops_example:
  "length mnc = 2 \<or> length mnc = 3 \<Longrightarrow>
   fst (queryAndParseAtCops 1 (cops_line mnc) example_client) = Inr LTE_CAT_M1"
  by (auto simp add: queryAndParseAtCops_def execCommand_def example_client_def cops_line_def
        Let_def)

theorem queryAndParseAtCops_mnc_digits_witness:
  "mobile_network_code (cgi_m (snd (queryAndParseAtCops 1 (cops_line ''08'') example_client))) = 8
   \<and> cgi_flags (cgi_m (snd (queryAndParseAtCops 1 (cops_line ''08'') example_client))) AND 1 = 1
   \<and> mobile_network_code (cgi_m (snd (queryAndParseAtCops 1 (cops_line ''260'') example_client)))
       = 260
   \<and> cgi_flags (cgi_m (snd (queryAndParseAtCops 1 (cops_line ''260'') example_client))) AND 1 = 0
   \<and> fst (queryAndParseAtCops 1 (cops_line ''7'') example_client) = Inl SYSTEM_ERROR_BAD_DATA
   \<and> mnc_part (snd (queryAndParseAtCops 1 (cops_line ''7'') example_client)) = (0, 0, 0)"
  using queryAndParseAtCops_mnc_digits [of 1 "cops_line ''08''" example_client LTE_CAT_M1]
        queryAndParseAtCops_mnc_digits [of 1 "cops_line ''260''" example_client LTE_CAT_M1]
        queryAndParseAtCops_mnc_digits [of 1 "cops_line ''7''" example_client LTE_CAT_M1]
        queryAndParseAtCops_example [of "''08''"] queryAndParseAtCops_example [of "''260''"]
  by (simp add: cops_line_def atoi_def isspace_def isdigit_def cops_exchanges_ok_def
        mnc_part_def example_client_def)

subsection \<open>The power sequencer\<close>

lemma power_step_refl: "power_step b s s"
  by (simp add: power_step_def)

lemma power_step_trans:
  "power_step a s s1 \<Longrightarrow> power_step b s1 s2 \<Longrightarrow> power_step (a + b) s s2"
  by (auto simp add: power_step_def)

lemma power_step_mono: "power_step a s s' \<Longrightarrow> a \<le> b \<Longrightarrow> power_step b s s'"
  by (auto simp add: power_step_def)

lemma power_step_delay: "power_step n s (HAL_Delay_Milliseconds n s)"
  by (simp add: power_step_def power_frame_def hal_defs)

lemma power_step_write: "power_step 0 s (HAL_GPIO_Write p v s)"
  by (simp add: power_step_def power_frame_def hal_defs)

lemma power_step_read: "power_step 0 s (snd (modemPowerState s))"
  by (simp add: power_step_def power_frame_def hal_defs)

lemma power_step_fields:
  assumes "power_step b s s'"
  shows "ncpState_m s' = ncpState_m s"
    and "conf_ncpIdentifier s' = conf_ncpIdentifier s"
    and "memoryIssuePresent_m s' = memoryIssuePresent_m s"
    and "env_vint s' = env_vint s"
    and "connState_m s' = connState_m s"
    and "conf_eventHandler s' = conf_eventHandler s"
    and "env_reset_info s' = env_reset_info s"
proof -
  from assms have e: "power_frame s' = power_frame s" by (simp add: power_step_def)
  from arg_cong [OF e, of ncpState_m] show "ncpState_m s' = ncpState_m s"
    by (simp add: power_frame_def)
  from arg_cong [OF e, of conf_ncpIdentifier]
  show "conf_ncpIdentifier s' = conf_ncpIdentifier s" by (simp add: power_frame_def)
  from arg_cong [OF e, of memoryIssuePresent_m]
  show "memoryIssuePresent_m s' = memoryIssuePresent_m s" by (simp add: power_frame_def)
  from arg_cong [OF e, of env_vint] show "env_vint s' = env_vint s"
    by (simp add: power_frame_def)
  from arg_cong [OF e, of connState_m] show "connState_m s' = connState_m s"
    by (simp add: power_frame_def)
  from arg_cong [OF e, of conf_eventHandler]
  show "conf_eventHandler s' = conf_eventHandler s" by (simp add: power_frame_def)
  from arg_cong [OF e, of env_reset_info]
  show "env_reset_info s' = env_reset_info s" by (simp add: power_frame_def)
qed

lemma unat_plus_100:
  "unat (d :: 32 word) < 30000 \<Longrightarrow> unat (d + 100) = unat d + 100"
  by (simp add: unat_word_ariths)

lemma guard_step:
  fixes s :: "('l, 'c, 'f) SaraNcpClient"
  defines "s1 \<equiv> snd (modemPowerState (HAL_Delay_Milliseconds 100 s))"
  shows "registeredTime_m s1 = registeredTime_m s"
    and "powerOnTime_m s1 = powerOnTime_m s"
    and "millis s1 = millis s + 100"
    and "power_step 100 s s1"
  unfolding s1_def
  by (simp_all add: hal_defs power_step_def power_frame_def)

lemma waitForPowerOff_loop_ends:
  "registeredTime_m s \<noteq> 0 \<or> powerOnTime_m s \<noteq> 0 \<Longrightarrow>
   \<exists>s'. waitForPowerOff_loop s = Some s' \<and> power_step (guard_budget s) s s'
        \<and> registeredTime_m s' = registeredTime_m s \<and> powerOnTime_m s' = powerOnTime_m s"
proof (induction "guard_budget s" arbitrary: s rule: less_induct)
  case less
  let ?s1 = "snd (modemPowerState (HAL_Delay_Milliseconds 100 s))"
  note st = guard_step [of s]
  show ?case
  proof (cases "if registeredTime_m s \<noteq> 0 then millis s - registeredTime_m s \<ge> 20000
          else powerOnTime_m s \<noteq> 0 \<and> millis s - powerOnTime_m s \<ge> 30000")
    case True
    then have "waitForPowerOff_loop s = Some s"
      by (subst waitForPowerOff_loop.simps) simp
    then show ?thesis by (simp add: power_step_refl)
  next
    case False
    with less.prems have small:
      "if registeredTime_m s \<noteq> 0 then unat (millis s - registeredTime_m s) < 20000
       else unat (millis s - powerOnTime_m s) < 30000"
      by (auto simp add: word_le_nat_alt not_le split: if_splits)
    have b1: "guard_budget ?s1 + 100 = guard_budget s"
    proof (cases "registeredTime_m s \<noteq> 0")
      case True
      with small have d: "unat (millis s - registeredTime_m s) < 20000" by simp
      then have "unat (millis s + 100 - registeredTime_m s) = unat (millis s - registeredTime_m s) + 100"
        using unat_plus_100 [of "millis s - registeredTime_m s"] by (simp add: algebra_simps)
      with True d show ?thesis by (simp add: guard_budget_def st)
    next
      case F: False
      with small have d: "unat (millis s - powerOnTime_m s) < 30000" by simp
      then have "unat (millis s + 100 - powerOnTime_m s) = unat (millis s - powerOnTime_m s) + 100"
        using unat_plus_100 [of "millis s - powerOnTime_m s"] by (simp add: algebra_simps)
      with F d show ?thesis by (simp add: guard_budget_def st)
    qed
    show ?thesis
    proof (cases "fst (modemPowerState (HAL_Delay_Milliseconds 100 s))")
      case F2: False
      with False have "waitForPowerOff_loop s = Some ?s1"
        by (subst waitForPowerOff_loop.simps) simp
      moreover have "power_step (guard_budget s) s ?s1"
        using st(4) b1 by (auto intro: power_step_mono)
      ultimately show ?thesis by (simp add: st)
    next
      case T2: True
      with False have eq: "waitForPowerOff_loop s = waitForPowerOff_loop ?s1"
        by (subst waitForPowerOff_loop.simps) simp
      have "guard_budget ?s1 < guard_budget s" using b1 by simp
      moreover have "registeredTime_m ?s1 \<noteq> 0 \<or> powerOnTime_m ?s1 \<noteq> 0"
        using less.prems by (simp add: st)
      ultimately obtain s' where s': "waitForPowerOff_loop ?s1 = Some s'"
        "power_step (guard_budget ?s1) ?s1 s'"
        "registeredTime_m s' = registeredTime_m ?s1" "powerOnTime_m s' = powerOnTime_m ?s1"
        using less.hyps [of ?s1] by blast
      have "power_step (100 + guard_budget ?s1) s s'"
        using power_step_trans [OF st(4) s'(2)] .
      then have "power_step (guard_budget s) s s'" using b1 by (simp add: add.commute)
      with eq s' show ?thesis by (simp add: st)
    qed
  qed
qed

lemma guard_budget_le: "guard_budget s \<le> 30099"
proof -
  have "\<And>n::nat. 20099 - n \<le> 30099" "\<And>n::nat. 30099 - n \<le> 30099" by arith+
  then show ?thesis by (simp add: guard_budget_def)
qed

lemma power_step_timers: "power_step 0 s (s\<lparr>registeredTime_m := a, powerOnTime_m := b\<rparr>)"
  "power_step 0 s (s\<lparr>powerOnTime_m := b\<rparr>)"
  "power_step 0 s (s\<lparr>env_once_flag := c\<rparr>)"
  by (simp_all add: power_step_def power_frame_def)

lemma waitForPowerOff_ends:
  assumes "guard_deadline s"
  shows "\<exists>s'. waitForPowerOff s = Some s' \<and> power_step 30099 s s'
          \<and> registeredTime_m s' = 0 \<and> powerOnTime_m s' = 0"
proof -
  let ?s1 = "if powerOnTime_m s = 0 then s\<lparr>powerOnTime_m := millis s\<rparr> else s"
  have "registeredTime_m ?s1 \<noteq> 0 \<or> powerOnTime_m ?s1 \<noteq> 0"
    using assms by (auto simp add: guard_deadline_def)
  from waitForPowerOff_loop_ends [OF this]
  obtain s2 where s2: "waitForPowerOff_loop ?s1 = Some s2" "power_step (guard_budget ?s1) ?s1 s2"
    by blast
  have "power_step 0 s ?s1" by (simp add: power_step_timers power_step_refl)
  from power_step_trans [OF this s2(2)] have "power_step 30099 s s2"
    by (rule power_step_mono) (simp add: guard_budget_le)
  from power_step_trans [OF this power_step_timers(1) [of s2 0 0]]
  have "power_step 30099 s (s2\<lparr>registeredTime_m := 0, powerOnTime_m := 0\<rparr>)" by simp
  with s2(1) show ?thesis by (simp add: waitForPowerOff_def Let_def)
qed

lemma power_step_poll: "power_step (100 * k) s (poll_power level k s)"
proof (induction k arbitrary: s)
  case 0
  show ?case by (simp add: power_step_refl)
next
  case (Suc k)
  let ?s1 = "snd (modemPowerState s)"
  have a: "power_step 0 s ?s1" by (rule power_step_read)
  show ?case
  proof (cases "fst (modemPowerState s) = level")
    case True
    then have "poll_power level (Suc k) s = ?s1" by (simp add: case_prod_unfold)
    with a show ?thesis by (auto intro: power_step_mono)
  next
    case False
    then have e: "poll_power level (Suc k) s = poll_power level k (HAL_Delay_Milliseconds 100 ?s1)"
      by (simp add: case_prod_unfold)
    from power_step_trans [OF a power_step_delay [of 100 ?s1]]
    have "power_step 100 s (HAL_Delay_Milliseconds 100 ?s1)" by simp
    from power_step_trans [OF this Suc.IH [of "HAL_Delay_Milliseconds 100 ?s1"]]
    show ?thesis unfolding e by simp
  qed
qed

lemma poll_power_never:
  "\<forall>n\<ge>env_vint_reads s. env_vint s n \<noteq> level \<Longrightarrow>
   poll_power level k s =
     s\<lparr>env_clock := env_clock s + 100 * k, env_vint_reads := env_vint_reads s + k,
       env_trace := env_trace s @ replicate k (Delay_Milliseconds 100)\<rparr>"
proof (induction k arbitrary: s)
  case 0
  show ?case by simp
next
  case (Suc k)
  let ?s1 = "HAL_Delay_Milliseconds 100 (snd (modemPowerState s))"
  from Suc.prems have a: "fst (modemPowerState s) \<noteq> level" by (simp add: hal_defs)
  from Suc.prems have "\<forall>n\<ge>env_vint_reads ?s1. env_vint ?s1 n \<noteq> level" by (simp add: hal_defs)
  from Suc.IH [OF this] a show ?case
    by (simp add: case_prod_unfold hal_defs replicate_append_same)
qed

lemma unat_5000: "(m :: 32 word) < 5000 \<Longrightarrow> unat (5000 - m) \<le> 5000"
  by (simp add: unat_sub word_less_nat_alt word_le_nat_alt)

lemma power_step_once: "power_step 5000 s (powerOff_once s)"
proof -
  have a: "power_step 0 s (s\<lparr>env_once_flag := True\<rparr>)" by (rule power_step_timers)
  let ?s0 = "s\<lparr>env_once_flag := True\<rparr>"
  let ?s1 = "snd (modemPowerState ?s0)"
  have b: "power_step 0 s ?s1" using power_step_trans [OF a power_step_read [of ?s0]] by simp
  have c: "millis ?s1 < 5000 \<Longrightarrow> power_step 5000 s (HAL_Delay_Milliseconds (unat (5000 - millis ?s1)) ?s1)"
    using power_step_trans [OF b power_step_delay [of "unat (5000 - millis ?s1)" ?s1]]
      unat_5000 [of "millis ?s1"] by (auto intro: power_step_mono)
  have d: "power_step 5000 s ?s0" "power_step 5000 s ?s1" "power_step 5000 s s"
    using a b by (auto intro: power_step_mono power_step_refl)
  show ?thesis
    using c d by (simp add: powerOff_once_def Let_def case_prod_unfold)
qed

lemma powerOff_once_R410:
  "conf_ncpIdentifier s = PLATFORM_NCP_SARA_R410 \<Longrightarrow>
   powerOff_once s = (if env_once_flag s then s else s\<lparr>env_once_flag := True\<rparr>)"
  by (simp add: powerOff_once_def)

lemma power_step_uart: "power_step 0 s (modemSetUartState b s)"
  by (simp add: power_step_def power_frame_def hal_defs)

lemma power_step_us: "power_step 0 s (HAL_Delay_Microseconds n s)"
  by (simp add: power_step_def power_frame_def hal_defs)

lemma power_step_pulse:
  "power_step d s (HAL_GPIO_Write p 1 (HAL_Delay_Milliseconds d (HAL_GPIO_Write p 0 s)))"
  using power_step_trans [OF power_step_trans [OF power_step_write [of s p 0]
          power_step_delay [of d "HAL_GPIO_Write p 0 s"]]
          power_step_write [of "HAL_Delay_Milliseconds d (HAL_GPIO_Write p 0 s)" p 1]]
  by simp

lemma power_step_pulse_poll:
  "power_step (d + 100 * k) s
     (poll_power level k (HAL_GPIO_Write p 1 (HAL_Delay_Milliseconds d (HAL_GPIO_Write p 0 s))))"
  by (rule power_step_trans [OF power_step_pulse power_step_poll])

lemma power_step_powerOn_pulse: "power_step 1150 s (powerOn_pulse s)"
proof (cases "conf_ncpIdentifier s = PLATFORM_NCP_SARA_R410")
  case True
  then show ?thesis
    using power_step_pulse_poll [of 150 10 s True UBPWR] by (simp add: powerOn_pulse_def)
next
  case False
  have "power_step 0 s (HAL_GPIO_Write UBPWR 1 (HAL_Delay_Microseconds 50 (HAL_GPIO_Write UBPWR 0 s)))"
    by (simp add: power_step_def power_frame_def hal_defs)
  from power_step_trans [OF this power_step_poll [of 10 _ True]] False
  show ?thesis by (auto simp add: powerOn_pulse_def intro: power_step_mono)
qed

lemma modemPowerOn_step: "power_step 1150 s (snd (modemPowerOn s))"
proof -
  let ?s1 = "snd (modemPowerState s)"
  let ?s2 = "if \<not> fst (modemPowerState s) then powerOn_pulse ?s1 else ?s1"
  have "power_step 1150 ?s1 ?s2"
    by (simp add: power_step_powerOn_pulse power_step_refl)
  from power_step_trans [OF power_step_trans [OF power_step_read [of s] this]
         power_step_read [of ?s2]]
  show ?thesis by (simp add: modemPowerOn_def case_prod_unfold Let_def)
qed

lemma modemPowerOn_already:
  "env_vint s (env_vint_reads s) \<Longrightarrow> env_vint s (Suc (env_vint_reads s)) \<Longrightarrow>
   modemPowerOn s = (Inr (), s\<lparr>env_vint_reads := env_vint_reads s + 2\<rparr>)"
  by (simp add: modemPowerOn_def hal_defs)

lemma modemPowerOn_result:
  "fst (modemPowerOn s) =
     (if env_vint s (env_vint_reads (snd (modemPowerOn s)) - 1) then Inr ()
      else Inl SYSTEM_ERROR_INVALID_STATE)"
proof (cases "fst (modemPowerState s)")
  case True
  then show ?thesis
    by (simp add: modemPowerOn_def case_prod_unfold Let_def) (simp add: modemPowerState_def)
next
  case False
  let ?s1 = "snd (modemPowerState s)"
  from power_step_trans [OF power_step_read [of s] power_step_powerOn_pulse [of ?s1]]
  have "env_vint (powerOn_pulse ?s1) = env_vint s" by (rule power_step_fields)
  with False show ?thesis
    by (simp add: modemPowerOn_def case_prod_unfold Let_def)
       (simp add: modemPowerState_def [of "powerOn_pulse _"])
qed

lemma modemPowerOn_never:
  assumes "\<forall>n\<ge>env_vint_reads s. \<not> env_vint s n"
  shows "fst (modemPowerOn s) = Inl SYSTEM_ERROR_INVALID_STATE
    \<and> env_trace (snd (modemPowerOn s)) =
        env_trace s @
        (if conf_ncpIdentifier s \<noteq> PLATFORM_NCP_SARA_R410
         then [GPIO_Write UBPWR 0, Delay_Microseconds 50, GPIO_Write UBPWR 1]
         else [GPIO_Write UBPWR 0, Delay_Milliseconds 150, GPIO_Write UBPWR 1])
        @ replicate 10 (Delay_Milliseconds 100)"
proof -
  let ?s1 = "snd (modemPowerState s)"
  let ?p = "if conf_ncpIdentifier ?s1 \<noteq> PLATFORM_NCP_SARA_R410
        then HAL_GPIO_Write UBPWR 1 (HAL_Delay_Microseconds 50 (HAL_GPIO_Write UBPWR 0 ?s1))
        else HAL_GPIO_Write UBPWR 1 (HAL_Delay_Milliseconds 150 (HAL_GPIO_Write UBPWR 0 ?s1))"
  from assms have a: "\<not> fst (modemPowerState s)" by (simp add: hal_defs)
  from assms have "\<forall>n\<ge>env_vint_reads ?p. env_vint ?p n \<noteq> True" by (simp add: hal_defs)
  note b = poll_power_never [OF this, of 10]
  from assms have c: "\<not> env_vint s (11 + env_vint_reads s)" by simp
  show ?thesis
    using a c by (simp add: modemPowerOn_def powerOn_pulse_def case_prod_unfold Let_def b)
       (simp add: hal_defs)
qed

lemma power_step_more_fields:
  assumes "power_step b s s'"
  shows "serial_enabled s' = serial_enabled s"
    and "muxerAtStream_enabled s' = muxerAtStream_enabled s"
    and "regStartTime_m s' = regStartTime_m s"
    and "registrationTimeout_m s' = registrationTimeout_m s"
proof -
  from assms have e: "power_frame s' = power_frame s" by (simp add: power_step_def)
  from arg_cong [OF e, of serial_enabled] show "serial_enabled s' = serial_enabled s"
    by (simp add: power_frame_def)
  from arg_cong [OF e, of muxerAtStream_enabled]
  show "muxerAtStream_enabled s' = muxerAtStream_enabled s" by (simp add: power_frame_def)
  from arg_cong [OF e, of regStartTime_m]
  show "regStartTime_m s' = regStartTime_m s" by (simp add: power_frame_def)
  from arg_cong [OF e, of registrationTimeout_m]
  show "registrationTimeout_m s' = registrationTimeout_m s" by (simp add: power_frame_def)
qed

lemma power_step_reads: "power_step b s s' \<Longrightarrow> env_vint_reads s \<le> env_vint_reads s'"
  and power_step_trace: "power_step b s s' \<Longrightarrow> \<exists>t. env_trace s' = env_trace s @ t"
  and power_step_clock: "power_step b s s' \<Longrightarrow> env_clock s \<le> env_clock s' \<and> env_clock s' \<le> env_clock s + b"
  by (simp_all add: power_step_def)

lemma guard_ends_uart: "guard_ends (modemSetUartState b s) = guard_ends s"
  and guard_ends_stop: "guard_ends (muxer_stop s) = guard_ends s"
  and guard_ends_read: "guard_ends (snd (modemPowerState s)) = guard_ends s"
  by (simp_all add: guard_ends_def guard_deadline_def hal_defs)

lemma guard_ends_once: "guard_ends (powerOff_once s) = guard_ends s"
proof (cases "conf_ncpIdentifier s = PLATFORM_NCP_SARA_R410")
  case True
  then show ?thesis
    by (simp add: powerOff_once_R410 guard_ends_def guard_deadline_def millis_def)
next
  case False
  moreover have "conf_ncpIdentifier (powerOff_once s) = conf_ncpIdentifier s"
    using power_step_once [of s] by (rule power_step_fields)
  ultimately show ?thesis by (simp add: guard_ends_def)
qed

lemma powerOff_pulse_returns:
  assumes "guard_ends s"
  shows "\<exists>s'. powerOff_pulse s = Some s' \<and> power_step 41699 s s'"
proof -
  let ?s2 = "modemSetUartState False s"
  have u: "power_step 0 s ?s2" by (rule power_step_uart)
  have c: "conf_ncpIdentifier ?s2 = conf_ncpIdentifier s"
    "memoryIssuePresent_m ?s2 = memoryIssuePresent_m s" by (simp_all add: hal_defs)
  show ?thesis
  proof (cases "conf_ncpIdentifier s = PLATFORM_NCP_SARA_R410")
    case False
    from power_step_trans [OF u power_step_pulse_poll [of 1500 100 ?s2 False UBPWR]]
    have "power_step 41699 s (poll_power False 100
             (HAL_GPIO_Write UBPWR 1 (HAL_Delay_Milliseconds 1500 (HAL_GPIO_Write UBPWR 0 ?s2))))"
      by (rule power_step_mono) simp
    with False show ?thesis by (simp add: powerOff_pulse_def c Let_def)
  next
    case True
    have "\<exists>s3. (if memoryIssuePresent_m ?s2 then waitForPowerOff ?s2 else Some ?s2) = Some s3
            \<and> power_step 30099 ?s2 s3"
    proof (cases "memoryIssuePresent_m s")
      case M: True
      with True assms have "guard_deadline ?s2"
        by (simp add: guard_ends_def guard_deadline_def hal_defs)
      from waitForPowerOff_ends [OF this] M show ?thesis by (auto simp add: c)
    next
      case M: False
      then show ?thesis by (simp add: c power_step_refl)
    qed
    then obtain s3 where s3:
      "(if memoryIssuePresent_m ?s2 then waitForPowerOff ?s2 else Some ?s2) = Some s3"
      "power_step 30099 ?s2 s3" by blast
    from power_step_trans [OF power_step_trans [OF u s3(2)]
           power_step_pulse_poll [of 1600 100 s3 False UBPWR]]
    have "power_step 41699 s (poll_power False 100
             (HAL_GPIO_Write UBPWR 1 (HAL_Delay_Milliseconds 1600 (HAL_GPIO_Write UBPWR 0 s3))))"
      by simp
    with True s3(1) show ?thesis by (simp add: powerOff_pulse_def c Let_def)
  qed
qed

lemma modemPowerOff_returns:
  assumes "guard_ends s"
  shows "\<exists>r s'. modemPowerOff s = Some (r, s') \<and> power_step 46699 s s'
           \<and> r = (if env_vint s (env_vint_reads s' - 1) then Inl SYSTEM_ERROR_INVALID_STATE
                  else Inr ())"
proof -
  let ?s1 = "snd (modemPowerState (powerOff_once s))"
  have p1: "power_step 5000 s ?s1"
    using power_step_trans [OF power_step_once [of s] power_step_read [of "powerOff_once s"]]
    by simp
  have g: "guard_ends ?s1" using assms by (simp add: guard_ends_read guard_ends_once)
  have "\<exists>s4. (if fst (modemPowerState (powerOff_once s)) then powerOff_pulse ?s1 else Some ?s1)
          = Some s4 \<and> power_step 41699 ?s1 s4"
    using powerOff_pulse_returns [OF g] by (auto simp add: power_step_refl)
  then obtain s4 where s4:
    "(if fst (modemPowerState (powerOff_once s)) then powerOff_pulse ?s1 else Some ?s1) = Some s4"
    "power_step 41699 ?s1 s4" by blast
  let ?s5 = "snd (modemPowerState s4)"
  from power_step_trans [OF p1 s4(2)] have p4: "power_step 46699 s s4" by simp
  from power_step_trans [OF p4 power_step_read [of s4]] have p5: "power_step 46699 s ?s5"
    by simp
  have v: "env_vint s4 = env_vint s" using p4 by (rule power_step_fields)
  have "modemPowerOff s = Some (if \<not> fst (modemPowerState s4) then Inr ()
          else Inl SYSTEM_ERROR_INVALID_STATE, ?s5)"
    using s4(1) by (simp add: modemPowerOff_def case_prod_unfold Let_def)
  moreover have "fst (modemPowerState s4) = env_vint s (env_vint_reads ?s5 - 1)"
    by (simp add: modemPowerState_def v)
  ultimately show ?thesis using p5 by auto
qed

lemma powerOff_once_off:
  "\<not> env_vint s (env_vint_reads s) \<Longrightarrow>
   env_trace (powerOff_once s) = env_trace s \<and> env_clock (powerOff_once s) = env_clock s"
  by (simp add: powerOff_once_def Let_def case_prod_unfold hal_defs)

lemma modemPowerOff_already:
  assumes "\<forall>n\<ge>env_vint_reads s. \<not> env_vint s n"
  shows "\<exists>s'. modemPowerOff s = Some (Inr (), s') \<and> env_trace s' = env_trace s
           \<and> env_clock s' = env_clock s"
proof -
  let ?s0 = "powerOff_once s"
  from assms have a: "env_trace ?s0 = env_trace s \<and> env_clock ?s0 = env_clock s"
    by (simp add: powerOff_once_off)
  have p: "power_step 5000 s ?s0" by (rule power_step_once)
  have v: "env_vint ?s0 = env_vint s" using p by (rule power_step_fields)
  have r: "env_vint_reads s \<le> env_vint_reads ?s0" using p by (rule power_step_reads)
  from assms r have "\<not> env_vint s (env_vint_reads ?s0)" "\<not> env_vint s (Suc (env_vint_reads ?s0))"
    by simp_all
  then show ?thesis using a v
    by (simp add: modemPowerOff_def case_prod_unfold Let_def modemPowerState_def)
qed

lemma modemPowerOff_never:
  assumes "guard_ends s" and "\<forall>n\<ge>env_vint_reads s. env_vint s n"
  shows "\<exists>s' t d. modemPowerOff s = Some (Inl SYSTEM_ERROR_INVALID_STATE, s')
           \<and> env_trace s' = env_trace s @ t @ GPIO_Write UBPWR 0 # Delay_Milliseconds d
                 # GPIO_Write UBPWR 1 # replicate 100 (Delay_Milliseconds 100)"
proof -
  let ?s0 = "powerOff_once s"
  let ?s1 = "snd (modemPowerState ?s0)"
  let ?s2 = "modemSetUartState False ?s1"
  have p0: "power_step 5000 s ?s0" by (rule power_step_once)
  have p1: "power_step 5000 s ?s1"
    using power_step_trans [OF p0 power_step_read [of ?s0]] by simp
  have p2: "power_step 5000 s ?s2"
    using power_step_trans [OF p1 power_step_uart [of ?s1 False]] by simp
  have on0: "fst (modemPowerState ?s0)"
    using assms(2) power_step_reads [OF p0] power_step_fields(4) [OF p0]
    by (simp add: modemPowerState_def)
  have g: "guard_ends ?s2" using assms(1)
    by (simp add: guard_ends_read guard_ends_once guard_ends_uart)
  have "\<exists>s3 d. powerOff_pulse ?s1 = Some (poll_power False 100
          (HAL_GPIO_Write UBPWR 1 (HAL_Delay_Milliseconds d (HAL_GPIO_Write UBPWR 0 s3))))
        \<and> power_step 30099 ?s2 s3"
  proof (cases "conf_ncpIdentifier s = PLATFORM_NCP_SARA_R410 \<and> memoryIssuePresent_m s")
    case True
    have c: "conf_ncpIdentifier ?s2 = conf_ncpIdentifier s"
      "memoryIssuePresent_m ?s2 = memoryIssuePresent_m s"
      using power_step_fields(2,3) [OF p2] by simp_all
    from g True c have "guard_deadline ?s2" by (simp add: guard_ends_def)
    from waitForPowerOff_ends [OF this] obtain s3 where
      "waitForPowerOff ?s2 = Some s3" "power_step 30099 ?s2 s3" by blast
    with True c show ?thesis by (auto simp add: powerOff_pulse_def Let_def)
  next
    case False
    have c: "conf_ncpIdentifier ?s2 = conf_ncpIdentifier s"
      "memoryIssuePresent_m ?s2 = memoryIssuePresent_m s"
      using power_step_fields(2,3) [OF p2] by simp_all
    have "power_step 30099 ?s2 ?s2" by (rule power_step_refl)
    with False c show ?thesis by (auto simp add: powerOff_pulse_def Let_def)
  qed
  then obtain s3 d where s3: "powerOff_pulse ?s1 = Some (poll_power False 100
          (HAL_GPIO_Write UBPWR 1 (HAL_Delay_Milliseconds d (HAL_GPIO_Write UBPWR 0 s3))))"
        "power_step 30099 ?s2 s3" by blast
  let ?x = "HAL_GPIO_Write UBPWR 1 (HAL_Delay_Milliseconds d (HAL_GPIO_Write UBPWR 0 s3))"
  from power_step_trans [OF p2 s3(2)] have p3: "power_step 35099 s s3" by simp
  have xv: "\<And>v w. env_vint (HAL_GPIO_Write UBPWR v (HAL_Delay_Milliseconds d
               (HAL_GPIO_Write UBPWR w s3))) = env_vint s"
    "\<And>v w. env_vint_reads (HAL_GPIO_Write UBPWR v (HAL_Delay_Milliseconds d
               (HAL_GPIO_Write UBPWR w s3))) = env_vint_reads s3"
    using power_step_fields(4) [OF p3] by (simp_all add: hal_defs)
  have "\<forall>n\<ge>env_vint_reads ?x. env_vint ?x n \<noteq> False"
    using assms(2) power_step_reads [OF p3] by (simp add: xv)
  note pp = poll_power_never [OF this, of 100]
  have last: "env_vint s (env_vint_reads s3 + 100)"
    using assms(2) power_step_reads [OF p3] by simp
  have "modemPowerOff s = Some (Inl SYSTEM_ERROR_INVALID_STATE,
          snd (modemPowerState (poll_power False 100 ?x)))"
    using on0 s3(1) last
    by (simp add: modemPowerOff_def case_prod_unfold Let_def)
       (simp add: pp modemPowerState_def xv)
  moreover from power_step_trace [OF p3] obtain t3 where "env_trace s3 = env_trace s @ t3"
    by blast
  then have "env_trace (snd (modemPowerState (poll_power False 100 ?x)))
      = env_trace s @ t3 @ GPIO_Write UBPWR 0 # Delay_Milliseconds d
        # GPIO_Write UBPWR 1 # replicate 100 (Delay_Milliseconds 100)"
    by (simp add: pp) (simp add: hal_defs)
  ultimately show ?thesis by blast
qed


lemma ncpState_OFF:
  assumes "ncpState_m s \<noteq> DISABLED"
  shows "ncpState_m (ncpState OFF s) = OFF"
    and "connState_m (ncpState OFF s) = DISCONNECTED"
    and "\<not> ready_m (ncpState OFF s)"
    and "\<exists>t. env_trace (ncpState OFF s) = env_trace s @ t"
    and "serial_enabled (ncpState OFF s) = serial_enabled s"
    and "muxerAtStream_enabled (ncpState OFF s) = muxerAtStream_enabled s"
  using assms
  by (simp_all add: ncpState_def connectionState_def Let_def hal_defs)

lemma off_disabled:
  "ncpState_m s = DISABLED \<Longrightarrow> off s = Some (Inl SYSTEM_ERROR_INVALID_STATE, s)"
  by (simp add: off_def)

lemma off_returns:
  assumes "ncpState_m s \<noteq> DISABLED" and "guard_ends s"
  shows "\<exists>s' t. off s = Some (Inr (), s') \<and> ncpState_m s' = OFF
           \<and> connState_m s' = DISCONNECTED \<and> \<not> ready_m s'
           \<and> serial_enabled s' = serial_enabled s
           \<and> muxerAtStream_enabled s' = muxerAtStream_enabled s
           \<and> env_trace s' = env_trace s @ Muxer_stop # GPIO_Write BUFEN 1 # t"
proof -
  let ?s0 = "modemSetUartState False (muxer_stop s)"
  have g: "guard_ends ?s0" using assms(2) by (simp add: guard_ends_uart guard_ends_stop)
  from modemPowerOff_returns [OF g] obtain r s1 where
    s1: "modemPowerOff ?s0 = Some (r, s1)" "power_step 46699 ?s0 s1" by blast
  let ?s2 = "s1\<lparr>ready_m := False\<rparr>"
  have n: "ncpState_m ?s2 \<noteq> DISABLED"
    using power_step_fields(1) [OF s1(2)] assms(1) by (simp add: hal_defs)
  have e: "serial_enabled ?s2 = serial_enabled s"
     "muxerAtStream_enabled ?s2 = muxerAtStream_enabled s"
    using power_step_more_fields(1,2) [OF s1(2)] by (simp_all add: hal_defs)
  from power_step_trace [OF s1(2)] obtain t1 where
    t1: "env_trace s1 = env_trace s @ Muxer_stop # GPIO_Write BUFEN 1 # t1"
    by (auto simp add: hal_defs)
  from ncpState_OFF(4) [OF n] obtain t2 where
    t2: "env_trace (ncpState OFF ?s2) = env_trace ?s2 @ t2" by blast
  have "off s = Some (Inr (), ncpState OFF ?s2)"
    using assms(1) s1(1) by (simp add: off_def)
  moreover have "env_trace (ncpState OFF ?s2)
      = env_trace s @ Muxer_stop # GPIO_Write BUFEN 1 # (t1 @ t2)"
    using t1 t2 by simp
  ultimately show ?thesis
    using ncpState_OFF(1,2,3,5,6) [OF n] e by auto
qed

lemma disable_disabled: "ncpState_m s = DISABLED \<Longrightarrow> disable s = s"
  by (simp add: disable_def)

lemma disable_state: "ncpState_m (disable s) = DISABLED"
  by (simp add: disable_def Let_def)

lemma disable_run: "(disable ^^ Suc n) s = disable s"
proof (induction n)
  case 0
  show ?case by simp
next
  case (Suc n)
  have "(disable ^^ Suc (Suc n)) s = disable ((disable ^^ Suc n) s)" by simp
  also have "\<dots> = disable (disable s)" by (simp only: Suc.IH)
  also have "\<dots> = disable s" by (rule disable_disabled) (rule disable_state)
  finally show ?case .
qed

lemma disable_fields:
  "ncpState_m s \<noteq> DISABLED \<Longrightarrow> prevNcpState_m (disable s) = ncpState_m s"
  "\<not> serial_enabled (disable s) \<or> ncpState_m s = DISABLED"
  "guard_ends (disable s) = guard_ends s"
  by (simp_all add: disable_def Let_def guard_ends_def guard_deadline_def millis_def)

lemma enable_enabled: "ncpState_m s \<noteq> DISABLED \<Longrightarrow> enable s = Some (Inr (), s)"
  by (simp add: enable_def)

lemma enable_returns:
  assumes "ncpState_m s = DISABLED" and "prevNcpState_m s \<noteq> DISABLED" and "guard_ends s"
  shows "\<exists>s'. enable s = Some (Inr (), s') \<and> ncpState_m s' = OFF
           \<and> serial_enabled s' \<and> muxerAtStream_enabled s' \<and> connState_m s' = DISCONNECTED"
proof -
  let ?s0 = "s\<lparr>serial_enabled := True, muxerAtStream_enabled := True,
               ncpState_m := prevNcpState_m s\<rparr>"
  have "ncpState_m ?s0 \<noteq> DISABLED" using assms(2) by simp
  moreover have "guard_ends ?s0" using assms(3)
    by (simp add: guard_ends_def guard_deadline_def millis_def)
  ultimately obtain s' where "off ?s0 = Some (Inr (), s')" "ncpState_m s' = OFF"
    "connState_m s' = DISCONNECTED" "serial_enabled s' = serial_enabled ?s0"
    "muxerAtStream_enabled s' = muxerAtStream_enabled ?s0"
    using off_returns [of ?s0] by blast
  with assms(1) show ?thesis by (simp add: enable_def)
qed


lemma modemPowerOn_keeps_vint: "env_vint (snd (modemPowerOn s)) = env_vint s"
  using modemPowerOn_step [of s] by (rule power_step_fields)

lemma modemPowerOn_twice:
  assumes "\<forall>n\<ge>env_vint_reads (snd (modemPowerOn s)). env_vint s n"
  shows "modemPowerOn (snd (modemPowerOn s)) =
     (Inr (), (snd (modemPowerOn s))\<lparr>env_vint_reads := env_vint_reads (snd (modemPowerOn s)) + 2\<rparr>)"
  using assms by (intro modemPowerOn_already) (simp_all add: modemPowerOn_keeps_vint)

lemma modemPowerOff_twice:
  assumes "guard_ends s" and "modemPowerOff s = Some (r, s1)"
    and "\<forall>n\<ge>env_vint_reads s1. \<not> env_vint s n"
  shows "\<exists>s2. modemPowerOff s1 = Some (Inr (), s2) \<and> env_trace s2 = env_trace s1
           \<and> env_clock s2 = env_clock s1"
proof -
  from modemPowerOff_returns [OF assms(1)] assms(2) have "power_step 46699 s s1" by auto
  then have "env_vint s1 = env_vint s" by (rule power_step_fields)
  with assms(3) show ?thesis by (intro modemPowerOff_already) simp
qed

text \<open>
  C5.  \<^verbatim>\<open>modemPowerOn\<close> and \<^verbatim>\<open>modemPowerOff\<close> read the power-good input before they
  pulse.  While the input reads the level asked for, each returns 0 and writes no pin
  (the trace is as before), so a second call after a successful first one, the input
  keeping its level, pulses nothing.  The result of each is decided by its last read of
  the input: invalid-state when that read is not the level asked for.  When the input
  never reaches the level, the trace ends with the pulse and the full poll: ten waits
  of 100 ms for power-on, a hundred for power-off.  (\<open>guard_ends\<close>: the aging guard that
  precedes the power-off pulse on an R410 with the memory issue has a deadline.)
\<close>

theorem modem_power_idempotent:
  "(env_vint s (env_vint_reads s) \<and> env_vint s (Suc (env_vint_reads s)) \<longrightarrow>
      modemPowerOn s = (Inr (), s\<lparr>env_vint_reads := env_vint_reads s + 2\<rparr>))
   \<and> ((\<forall>n\<ge>env_vint_reads (snd (modemPowerOn s)). env_vint s n) \<longrightarrow>
      modemPowerOn (snd (modemPowerOn s)) =
        (Inr (), (snd (modemPowerOn s))
           \<lparr>env_vint_reads := env_vint_reads (snd (modemPowerOn s)) + 2\<rparr>))
   \<and> fst (modemPowerOn s) =
       (if env_vint s (env_vint_reads (snd (modemPowerOn s)) - 1) then Inr ()
        else Inl SYSTEM_ERROR_INVALID_STATE)
   \<and> ((\<forall>n\<ge>env_vint_reads s. \<not> env_vint s n) \<longrightarrow>
      fst (modemPowerOn s) = Inl SYSTEM_ERROR_INVALID_STATE
      \<and> env_trace (snd (modemPowerOn s)) =
          env_trace s @
          (if conf_ncpIdentifier s \<noteq> PLATFORM_NCP_SARA_R410
           then [GPIO_Write UBPWR 0, Delay_Microseconds 50, GPIO_Write UBPWR 1]
           else [GPIO_Write UBPWR 0, Delay_Milliseconds 150, GPIO_Write UBPWR 1])
          @ replicate 10 (Delay_Milliseconds 100))
   \<and> ((\<forall>n\<ge>env_vint_reads s. \<not> env_vint s n) \<longrightarrow>
      (\<exists>s'. modemPowerOff s = Some (Inr (), s') \<and> env_trace s' = env_trace s
            \<and> env_clock s' = env_clock s))
   \<and> (guard_ends s \<longrightarrow>
      (\<exists>r s1. modemPowerOff s = Some (r, s1)
         \<and> r = (if env_vint s (env_vint_reads s1 - 1) then Inl SYSTEM_ERROR_INVALID_STATE
                else Inr ())
         \<and> ((\<forall>n\<ge>env_vint_reads s1. \<not> env_vint s n) \<longrightarrow>
              (\<exists>s2. modemPowerOff s1 = Some (Inr (), s2) \<and> env_trace s2 = env_trace s1
                    \<and> env_clock s2 = env_clock s1))))
   \<and> (guard_ends s \<and> (\<forall>n\<ge>env_vint_reads s. env_vint s n) \<longrightarrow>
      (\<exists>s' t d. modemPowerOff s = Some (Inl SYSTEM_ERROR_INVALID_STATE, s')
         \<and> env_trace s' = env_trace s @ t @ GPIO_Write UBPWR 0 # Delay_Milliseconds d
               # GPIO_Write UBPWR 1 # replicate 100 (Delay_Milliseconds 100)))"
proof (intro conjI impI)
  show "fst (modemPowerOn s) =
       (if env_vint s (env_vint_reads (snd (modemPowerOn s)) - 1) then Inr ()
        else Inl SYSTEM_ERROR_INVALID_STATE)"
    by (rule modemPowerOn_result)
  {
    assume "env_vint s (env_vint_reads s) \<and> env_vint s (Suc (env_vint_reads s))"
    then show "modemPowerOn s = (Inr (), s\<lparr>env_vint_reads := env_vint_reads s + 2\<rparr>)"
      by (simp add: modemPowerOn_already)
  }
  {
    assume "\<forall>n\<ge>env_vint_reads (snd (modemPowerOn s)). env_vint s n"
    then show "modemPowerOn (snd (modemPowerOn s)) =
        (Inr (), (snd (modemPowerOn s))
           \<lparr>env_vint_reads := env_vint_reads (snd (modemPowerOn s)) + 2\<rparr>)"
      by (rule modemPowerOn_twice)
  }
  {
    assume a: "\<forall>n\<ge>env_vint_reads s. \<not> env_vint s n"
    from modemPowerOn_never [OF a]
    show "fst (modemPowerOn s) = Inl SYSTEM_ERROR_INVALID_STATE" by simp
    from modemPowerOn_never [OF a]
    show "env_trace (snd (modemPowerOn s)) =
          env_trace s @
          (if conf_ncpIdentifier s \<noteq> PLATFORM_NCP_SARA_R410
           then [GPIO_Write UBPWR 0, Delay_Microseconds 50, GPIO_Write UBPWR 1]
           else [GPIO_Write UBPWR 0, Delay_Milliseconds 150, GPIO_Write UBPWR 1])
          @ replicate 10 (Delay_Milliseconds 100)" by simp
    from a show "\<exists>s'. modemPowerOff s = Some (Inr (), s') \<and> env_trace s' = env_trace s
            \<and> env_clock s' = env_clock s"
      by (rule modemPowerOff_already)
  }
  {
    assume g: "guard_ends s"
    from modemPowerOff_returns [OF g] obtain r s1 where
      r: "modemPowerOff s = Some (r, s1)"
         "r = (if env_vint s (env_vint_reads s1 - 1) then Inl SYSTEM_ERROR_INVALID_STATE
               else Inr ())" by blast
    have "(\<forall>n\<ge>env_vint_reads s1. \<not> env_vint s n) \<longrightarrow>
              (\<exists>s2. modemPowerOff s1 = Some (Inr (), s2) \<and> env_trace s2 = env_trace s1
                    \<and> env_clock s2 = env_clock s1)"
      using modemPowerOff_twice [OF g r(1)] by blast
    with r show "\<exists>r s1. modemPowerOff s = Some (r, s1)
         \<and> r = (if env_vint s (env_vint_reads s1 - 1) then Inl SYSTEM_ERROR_INVALID_STATE
                else Inr ())
         \<and> ((\<forall>n\<ge>env_vint_reads s1. \<not> env_vint s n) \<longrightarrow>
              (\<exists>s2. modemPowerOff s1 = Some (Inr (), s2) \<and> env_trace s2 = env_trace s1
                    \<and> env_clock s2 = env_clock s1))"
      by blast
  }
  {
    assume a: "guard_ends s \<and> (\<forall>n\<ge>env_vint_reads s. env_vint s n)"
    show "\<exists>s' t d. modemPowerOff s = Some (Inl SYSTEM_ERROR_INVALID_STATE, s')
         \<and> env_trace s' = env_trace s @ t @ GPIO_Write UBPWR 0 # Delay_Milliseconds d
               # GPIO_Write UBPWR 1 # replicate 100 (Delay_Milliseconds 100)"
      by (rule modemPowerOff_never) (use a in simp_all)
  }
qed

lemma aging_client_fields:
  "env_vint aging_client = (\<lambda>n. True)"
  "env_vint_reads aging_client = 0"
  "env_trace aging_client = []"
  "ncpState_m aging_client = ON"
  "guard_ends aging_client"
  by (simp_all add: aging_client_def overdue_client_def example_client_def guard_ends_def
        guard_deadline_def)

lemma example_client_fields:
  "env_vint example_client = (\<lambda>n. True)"
  "env_vint_reads example_client = 0"
  "env_trace example_client = []"
  "env_clock example_client = 1000"
  "conf_ncpIdentifier example_client = PLATFORM_NCP_SARA_R410"
  "memoryIssuePresent_m example_client = False"
  "ncpState_m example_client = ON"
  "connState_m example_client = CONNECTING"
  "guard_ends example_client"
  by (simp_all add: example_client_def guard_ends_def)

theorem modem_power_idempotent_witness:
  "modemPowerOn example_client = (Inr (), example_client\<lparr>env_vint_reads := 2\<rparr>)
   \<and> fst (modemPowerOn (example_client\<lparr>env_vint := (\<lambda>n. False)\<rparr>))
       = Inl SYSTEM_ERROR_INVALID_STATE
   \<and> env_trace (snd (modemPowerOn (example_client\<lparr>env_vint := (\<lambda>n. False)\<rparr>)))
       = [GPIO_Write UBPWR 0, Delay_Milliseconds 150, GPIO_Write UBPWR 1]
         @ replicate 10 (Delay_Milliseconds 100)
   \<and> (\<exists>s'. modemPowerOff (example_client\<lparr>env_vint := (\<lambda>n. False)\<rparr>) = Some (Inr (), s')
          \<and> env_trace s' = [])
   \<and> (\<exists>s' t d. modemPowerOff example_client = Some (Inl SYSTEM_ERROR_INVALID_STATE, s')
          \<and> env_trace s' = t @ GPIO_Write UBPWR 0 # Delay_Milliseconds d
                # GPIO_Write UBPWR 1 # replicate 100 (Delay_Milliseconds 100))
   \<and> (\<exists>s' t d. modemPowerOff aging_client = Some (Inl SYSTEM_ERROR_INVALID_STATE, s')
          \<and> env_trace s' = t @ GPIO_Write UBPWR 0 # Delay_Milliseconds d
                # GPIO_Write UBPWR 1 # replicate 100 (Delay_Milliseconds 100))"
proof -
  let ?u = "example_client\<lparr>env_vint := (\<lambda>n. False)\<rparr>"
  note t = modem_power_idempotent [of example_client]
  note u = modem_power_idempotent [of ?u]
  note v = modem_power_idempotent [of aging_client]
  have h: "env_vint example_client (env_vint_reads example_client)
       \<and> env_vint example_client (Suc (env_vint_reads example_client))"
    "\<forall>n\<ge>env_vint_reads ?u. \<not> env_vint ?u n"
    "guard_ends example_client
       \<and> (\<forall>n\<ge>env_vint_reads example_client. env_vint example_client n)"
    "guard_ends aging_client \<and> (\<forall>n\<ge>env_vint_reads aging_client. env_vint aging_client n)"
    by (simp_all add: example_client_fields aging_client_fields)
  note t1 = t [THEN conjunct1, THEN mp, OF h(1)]
  note u4 = u [THEN conjunct2, THEN conjunct2, THEN conjunct2, THEN conjunct1, THEN mp,
               OF h(2)]
  note u5 = u [THEN conjunct2, THEN conjunct2, THEN conjunct2, THEN conjunct2,
               THEN conjunct1, THEN mp, OF h(2)]
  note t7 = t [THEN conjunct2, THEN conjunct2, THEN conjunct2, THEN conjunct2,
               THEN conjunct2, THEN conjunct2, THEN mp, OF h(3)]
  note v7 = v [THEN conjunct2, THEN conjunct2, THEN conjunct2, THEN conjunct2,
               THEN conjunct2, THEN conjunct2, THEN mp, OF h(4)]
  from t1 have a: "modemPowerOn example_client = (Inr (), example_client\<lparr>env_vint_reads := 2\<rparr>)"
    by (simp add: example_client_fields)
  from u4 have b: "fst (modemPowerOn ?u) = Inl SYSTEM_ERROR_INVALID_STATE"
    "env_trace (snd (modemPowerOn ?u))
       = [GPIO_Write UBPWR 0, Delay_Milliseconds 150, GPIO_Write UBPWR 1]
         @ replicate 10 (Delay_Milliseconds 100)"
    by (simp_all add: example_client_fields)
  from u5 have c: "\<exists>s'. modemPowerOff ?u = Some (Inr (), s') \<and> env_trace s' = []"
    by (auto simp add: example_client_fields)
  from t7 have d: "\<exists>s' t d. modemPowerOff example_client = Some (Inl SYSTEM_ERROR_INVALID_STATE, s')
          \<and> env_trace s' = t @ GPIO_Write UBPWR 0 # Delay_Milliseconds d
                # GPIO_Write UBPWR 1 # replicate 100 (Delay_Milliseconds 100)"
    by (simp add: example_client_fields)
  from v7 have e: "\<exists>s' t d. modemPowerOff aging_client = Some (Inl SYSTEM_ERROR_INVALID_STATE, s')
          \<and> env_trace s' = t @ GPIO_Write UBPWR 0 # Delay_Milliseconds d
                # GPIO_Write UBPWR 1 # replicate 100 (Delay_Milliseconds 100)"
    by (simp add: aging_client_fields)
  from a b c d e show ?thesis by (intro conjI)
qed

subsection \<open>What the power sequencer leaves alone, whenever it returns\<close>

lemma power_step_frame: "power_step b s s' \<Longrightarrow> power_frame s' = power_frame s"
  by (simp add: power_step_def)

lemma waitForPowerOff_loop_frame:
  assumes a: "waitForPowerOff_loop s = Some s'"
  shows "power_frame s' = power_frame s"
proof (rule waitForPowerOff_loop.raw_induct
         [where P = "\<lambda>s s'. power_frame s' = power_frame s", OF _ a])
  fix loop :: "('a, 'b, 'c) SaraNcpClient \<Rightarrow> ('a, 'b, 'c) SaraNcpClient option"
  fix s y
  assume ih: "\<And>s y. loop s = Some y \<Longrightarrow> power_frame y = power_frame s"
  assume b: "(if if registeredTime_m s \<noteq> 0 then millis s - registeredTime_m s \<ge> 20000
          else powerOnTime_m s \<noteq> 0 \<and> millis s - powerOnTime_m s \<ge> 30000
      then Some s
      else if fst (modemPowerState (HAL_Delay_Milliseconds 100 s))
           then loop (snd (modemPowerState (HAL_Delay_Milliseconds 100 s)))
           else Some (snd (modemPowerState (HAL_Delay_Milliseconds 100 s)))) = Some y"
  note st = power_step_frame [OF guard_step(4) [of s]]
  show "power_frame y = power_frame s"
  proof (cases "if registeredTime_m s \<noteq> 0 then millis s - registeredTime_m s \<ge> 20000
          else powerOnTime_m s \<noteq> 0 \<and> millis s - powerOnTime_m s \<ge> 30000")
    case True
    with b have "y = s" by (auto split: if_splits)
    then show ?thesis by simp
  next
    case False
    show ?thesis
    proof (cases "fst (modemPowerState (HAL_Delay_Milliseconds 100 s))")
      case T: True
      with False b have "loop (snd (modemPowerState (HAL_Delay_Milliseconds 100 s))) = Some y"
        by (auto split: if_splits)
      from ih [OF this] st show ?thesis by simp
    next
      case F: False
      with False b have "y = snd (modemPowerState (HAL_Delay_Milliseconds 100 s))"
        by (auto split: if_splits)
      with st show ?thesis by simp
    qed
  qed
qed

lemma waitForPowerOff_frame:
  "waitForPowerOff s = Some s' \<Longrightarrow> power_frame s' = power_frame s"
proof -
  assume a: "waitForPowerOff s = Some s'"
  let ?s1 = "if powerOnTime_m s = 0 then s\<lparr>powerOnTime_m := millis s\<rparr> else s"
  from a obtain s2 where s2: "waitForPowerOff_loop ?s1 = Some s2"
    "s' = s2\<lparr>registeredTime_m := 0, powerOnTime_m := 0\<rparr>"
    by (auto simp add: waitForPowerOff_def Let_def split: option.splits)
  have "power_frame ?s1 = power_frame s" by (simp add: power_frame_def)
  with waitForPowerOff_loop_frame [OF s2(1)] have "power_frame s2 = power_frame s" by simp
  moreover have "power_frame s' = power_frame s2" by (simp add: s2(2) power_frame_def)
  ultimately show ?thesis by simp
qed

lemma powerOff_pulse_frame:
  assumes "powerOff_pulse s = Some s'"
  shows "power_frame s' = power_frame s"
proof -
  let ?s2 = "modemSetUartState False s"
  have u: "power_frame ?s2 = power_frame s" by (rule power_step_frame [OF power_step_uart])
  have pp: "\<And>d x. power_frame (poll_power False 100
             (HAL_GPIO_Write UBPWR 1 (HAL_Delay_Milliseconds d (HAL_GPIO_Write UBPWR 0 x))))
           = power_frame x"
    by (rule power_step_frame [OF power_step_pulse_poll])
  show ?thesis
  proof (cases "conf_ncpIdentifier ?s2 \<noteq> PLATFORM_NCP_SARA_R410")
    case True
    with assms have "s' = poll_power False 100
        (HAL_GPIO_Write UBPWR 1 (HAL_Delay_Milliseconds 1500 (HAL_GPIO_Write UBPWR 0 ?s2)))"
      by (simp add: powerOff_pulse_def Let_def)
    then show ?thesis using pp [of 1500 ?s2] u by simp
  next
    case False
    with assms obtain s3 where s3:
      "(if memoryIssuePresent_m ?s2 then waitForPowerOff ?s2 else Some ?s2) = Some s3"
      "s' = poll_power False 100
        (HAL_GPIO_Write UBPWR 1 (HAL_Delay_Milliseconds 1600 (HAL_GPIO_Write UBPWR 0 s3)))"
      by (auto simp add: powerOff_pulse_def Let_def split: option.splits)
    from s3(1) have "power_frame s3 = power_frame ?s2"
      by (auto simp add: waitForPowerOff_frame split: if_splits)
    then show ?thesis using pp [of 1600 s3] u s3(2) by simp
  qed
qed

lemma modemPowerOff_frame:
  assumes "modemPowerOff s = Some (r, s')"
  shows "power_frame s' = power_frame s"
proof -
  let ?s1 = "snd (modemPowerState (powerOff_once s))"
  have p1: "power_frame ?s1 = power_frame s"
    using power_step_frame [OF power_step_once [of s]]
      power_step_frame [OF power_step_read [of "powerOff_once s"]] by simp
  from assms obtain s4 where s4:
    "(if fst (modemPowerState (powerOff_once s)) then powerOff_pulse ?s1 else Some ?s1) = Some s4"
    "s' = snd (modemPowerState s4)"
    by (auto simp add: modemPowerOff_def case_prod_unfold Let_def split: option.splits)
  from s4(1) have "power_frame s4 = power_frame ?s1"
    by (auto simp add: powerOff_pulse_frame split: if_splits)
  with p1 s4(2) power_step_frame [OF power_step_read [of s4]] show ?thesis by simp
qed

lemma frame_ncpState:
  "power_frame s' = power_frame s \<Longrightarrow> ncpState_m s' = ncpState_m s"
  "power_frame s' = power_frame s \<Longrightarrow> serial_enabled s' = serial_enabled s"
  "power_frame s' = power_frame s \<Longrightarrow> muxerAtStream_enabled s' = muxerAtStream_enabled s"
proof -
  assume e: "power_frame s' = power_frame s"
  from arg_cong [OF e, of ncpState_m] show "ncpState_m s' = ncpState_m s"
    by (simp add: power_frame_def)
  from arg_cong [OF e, of serial_enabled] show "serial_enabled s' = serial_enabled s"
    by (simp add: power_frame_def)
  from arg_cong [OF e, of muxerAtStream_enabled]
  show "muxerAtStream_enabled s' = muxerAtStream_enabled s" by (simp add: power_frame_def)
qed

lemma off_result:
  assumes "ncpState_m s \<noteq> DISABLED" and "off s = Some (r, s')"
  shows "r = Inr () \<and> ncpState_m s' = OFF \<and> connState_m s' = DISCONNECTED \<and> \<not> ready_m s'
         \<and> serial_enabled s' = serial_enabled s
         \<and> muxerAtStream_enabled s' = muxerAtStream_enabled s"
proof -
  let ?s0 = "modemSetUartState False (muxer_stop s)"
  from assms obtain rv s1 where s1: "modemPowerOff ?s0 = Some (rv, s1)"
    "r = Inr ()" "s' = ncpState OFF (s1\<lparr>ready_m := False\<rparr>)"
    by (auto simp add: off_def split: option.splits)
  note f = modemPowerOff_frame [OF s1(1)]
  have n: "ncpState_m (s1\<lparr>ready_m := False\<rparr>) \<noteq> DISABLED"
    using frame_ncpState(1) [OF f] assms(1) by (simp add: hal_defs)
  have e: "serial_enabled s1 = serial_enabled s" "muxerAtStream_enabled s1 = muxerAtStream_enabled s"
    using frame_ncpState(2,3) [OF f] by (simp_all add: hal_defs)
  from ncpState_OFF [OF n] s1(2,3) e show ?thesis by simp
qed

lemma enable_result:
  assumes "ncpState_m s = DISABLED" and "prevNcpState_m s \<noteq> DISABLED"
    and "enable s = Some (r, s')"
  shows "r = Inr () \<and> ncpState_m s' = OFF \<and> connState_m s' = DISCONNECTED
         \<and> serial_enabled s' \<and> muxerAtStream_enabled s'"
proof -
  let ?s0 = "s\<lparr>serial_enabled := True, muxerAtStream_enabled := True,
               ncpState_m := prevNcpState_m s\<rparr>"
  from assms(1,3) obtain r0 where "off ?s0 = Some (r0, s')" "r = Inr ()"
    by (auto simp add: enable_def split: option.splits)
  with off_result [of ?s0 r0 s'] assms(2) show ?thesis by simp
qed

subsection \<open>Switching on and off\<close>




subsection \<open>Disabling and enabling\<close>

text \<open>
  C10.  \<^verbatim>\<open>disable\<close> on a disabled client changes nothing, so a run of \<^verbatim>\<open>disable\<close>
  calls is its first call, and the state recorded as previous is the one before the
  run.  \<^verbatim>\<open>enable\<close> on a client that is not disabled returns 0 and changes nothing.
  \<^verbatim>\<open>enable\<close> after a run of \<^verbatim>\<open>disable\<close> calls returns 0 with the serial stream and the
  muxed stream enabled and the client off and disconnected, whatever state it was
  disabled in: whatever it returns is that result, and it does return when the aging
  guard inside \<^verbatim>\<open>off\<close> has a deadline (\<open>guard_ends\<close>).
\<close>

theorem enable_disable:
  "(ncpState_m s = DISABLED \<longrightarrow> disable s = s)
   \<and> (disable ^^ Suc n) s = disable s
   \<and> (ncpState_m s \<noteq> DISABLED \<longrightarrow>
        ncpState_m ((disable ^^ Suc n) s) = DISABLED
        \<and> prevNcpState_m ((disable ^^ Suc n) s) = ncpState_m s
        \<and> \<not> serial_enabled ((disable ^^ Suc n) s)
        \<and> \<not> muxerAtStream_enabled ((disable ^^ Suc n) s))
   \<and> (ncpState_m s \<noteq> DISABLED \<longrightarrow> enable s = Some (Inr (), s))
   \<and> (ncpState_m s \<noteq> DISABLED \<and> guard_ends s \<longrightarrow>
        (\<exists>s'. enable ((disable ^^ Suc n) s) = Some (Inr (), s') \<and> ncpState_m s' = OFF
           \<and> serial_enabled s' \<and> muxerAtStream_enabled s' \<and> connState_m s' = DISCONNECTED))
   \<and> (ncpState_m s \<noteq> DISABLED \<and> enable ((disable ^^ Suc n) s) = Some (r, s1) \<longrightarrow>
        r = Inr () \<and> ncpState_m s1 = OFF \<and> serial_enabled s1 \<and> muxerAtStream_enabled s1
        \<and> connState_m s1 = DISCONNECTED)"
proof (intro conjI impI)
  show "(disable ^^ Suc n) s = disable s" by (rule disable_run)
  {
    assume a: "ncpState_m s \<noteq> DISABLED \<and> enable ((disable ^^ Suc n) s) = Some (r, s1)"
    then have "enable (disable s) = Some (r, s1)" by (simp only: disable_run)
    with a have b: "r = Inr () \<and> ncpState_m s1 = OFF \<and> connState_m s1 = DISCONNECTED
         \<and> serial_enabled s1 \<and> muxerAtStream_enabled s1"
      by (intro enable_result [of "disable s"]) (simp_all add: disable_state disable_fields)
    from b show "r = Inr ()" by simp
    from b show "ncpState_m s1 = OFF" by simp
    from b show "serial_enabled s1" by simp
    from b show "muxerAtStream_enabled s1" by simp
    from b show "connState_m s1 = DISCONNECTED" by simp
  }
  {
    assume "ncpState_m s = DISABLED"
    then show "disable s = s" by (rule disable_disabled)
  }
  {
    assume a: "ncpState_m s \<noteq> DISABLED"
    then show "enable s = Some (Inr (), s)" by (rule enable_enabled)
    show "ncpState_m ((disable ^^ Suc n) s) = DISABLED"
      by (simp only: disable_run disable_state)
    from a show "prevNcpState_m ((disable ^^ Suc n) s) = ncpState_m s"
      by (simp only: disable_run) (simp add: disable_fields)
    from a show "\<not> serial_enabled ((disable ^^ Suc n) s)"
      by (simp only: disable_run) (simp add: disable_def Let_def)
    from a show "\<not> muxerAtStream_enabled ((disable ^^ Suc n) s)"
      by (simp only: disable_run) (simp add: disable_def Let_def)
  }
  {
    assume a: "ncpState_m s \<noteq> DISABLED \<and> guard_ends s"
    have "\<exists>s'. enable (disable s) = Some (Inr (), s') \<and> ncpState_m s' = OFF
           \<and> serial_enabled s' \<and> muxerAtStream_enabled s' \<and> connState_m s' = DISCONNECTED"
      by (rule enable_returns) (use a in \<open>simp_all add: disable_state disable_fields\<close>)
    then show "\<exists>s'. enable ((disable ^^ Suc n) s) = Some (Inr (), s') \<and> ncpState_m s' = OFF
           \<and> serial_enabled s' \<and> muxerAtStream_enabled s' \<and> connState_m s' = DISCONNECTED"
      by (simp only: disable_run)
  }
qed

theorem enable_disable_witness:
  "prevNcpState_m ((disable ^^ Suc 2) example_client) = ON
   \<and> ncpState_m ((disable ^^ Suc 2) example_client) = DISABLED
   \<and> enable example_client = Some (Inr (), example_client)
   \<and> (\<exists>s'. enable ((disable ^^ Suc 2) example_client) = Some (Inr (), s')
         \<and> ncpState_m s' = OFF \<and> serial_enabled s' \<and> muxerAtStream_enabled s'
         \<and> connState_m s' = DISCONNECTED)"
proof -
  have h: "ncpState_m example_client \<noteq> DISABLED" "guard_ends example_client"
    "ncpState_m example_client = ON"
    by (simp_all add: example_client_fields guard_ends_def)
  note t = enable_disable [of example_client 2]
  note t3 = t [THEN conjunct2, THEN conjunct2, THEN conjunct1, THEN mp, OF h(1)]
  note t4 = t [THEN conjunct2, THEN conjunct2, THEN conjunct2, THEN conjunct1, THEN mp,
               OF h(1)]
  note t5 = t [THEN conjunct2, THEN conjunct2, THEN conjunct2, THEN conjunct2,
               THEN conjunct1, THEN mp, OF conjI [OF h(1) h(2)]]
  from t3 t4 t5 h(3) show ?thesis by (intro conjI) simp_all
qed

subsection \<open>The registration watchdog\<close>































end
